theory Spec2Isabelle
  imports Complex_Main "HOL-Library.Sublist" "HOL-Library.AList" "HOL-Library.Word"
begin

section \<open>Strings\<close>

text \<open>
  A JavaScript string is modelled as a \<^typ>\<open>string\<close>: a list of 8-bit characters, each read
  as the UTF-16 code unit of the same number (U+0000 to U+00FF, that is Latin-1), so that
  \<^term>\<open>length s\<close> is \<open>s.length\<close>.
\<close>

text \<open>\<open>String.prototype.includes\<close>: the needle occurs at some position of the string.\<close>

fun includes_str :: "string \<Rightarrow> string \<Rightarrow> bool" where
  "includes_str [] needle = (needle = [])"
| "includes_str (c # cs) needle = (prefix needle (c # cs) \<or> includes_str cs needle)"

text \<open>
  \<open>String.prototype.toLowerCase\<close> on one code unit below U+0100: the ASCII capitals and the
  Latin-1 capitals (U+00C0 to U+00DE, without the multiplication sign U+00D7) move up by 32.
\<close>

definition toLowerCase_char :: "char \<Rightarrow> char" where
  "toLowerCase_char c =
     (let n = of_char c :: nat
      in if (65 \<le> n \<and> n \<le> 90) \<or> (192 \<le> n \<and> n \<le> 222 \<and> n \<noteq> 215)
         then char_of (n + 32) else c)"

definition toLowerCase :: "string \<Rightarrow> string" where
  "toLowerCase s = map toLowerCase_char s"

text \<open>The line feed and the carriage return.\<close>

definition LF :: char where
  "LF = CHR 0x0A"

definition CR :: char where
  "CR = CHR 0x0D"

text \<open>
  White space as \<open>String.prototype.trim\<close> and the class \<open>\s\<close> of a regular expression
  see it, among the code units below U+0100: tab, line feed, vertical tab, form feed,
  carriage return, space and the no-break space.
\<close>

definition isWhiteSpace :: "char \<Rightarrow> bool" where
  "isWhiteSpace c =
     (let n = of_char c :: nat in (9 \<le> n \<and> n \<le> 13) \<or> n = 32 \<or> n = 160)"

definition trim :: "string \<Rightarrow> string" where
  "trim s = rev (dropWhile isWhiteSpace (rev (dropWhile isWhiteSpace s)))"

text \<open>\<open>Array.prototype.join\<close> on strings.\<close>

fun join :: "string \<Rightarrow> string list \<Rightarrow> string" where
  "join sep [] = []"
| "join sep [x] = x"
| "join sep (x # y # ys) = x @ sep @ join sep (y # ys)"

text \<open>\<open>.replace(/\r\n/g, '\n')\<close>: every carriage return followed by a line feed becomes a line feed.\<close>

fun replace_crlf :: "string \<Rightarrow> string" where
  "replace_crlf (c # d # cs) =
     (if c = CR \<and> d = LF then LF # replace_crlf cs else c # replace_crlf (d # cs))"
| "replace_crlf cs = cs"

text \<open>\<open>.replace(/\n{3,}/g, '\n\n')\<close>: a maximal run of three or more line feeds becomes two.\<close>

function collapse_newlines :: "string \<Rightarrow> string" where
  "collapse_newlines [] = []"
| "collapse_newlines (c # cs) =
     (if c = LF then
        (let run = takeWhile (\<lambda>x. x = LF) (c # cs);
             rest = dropWhile (\<lambda>x. x = LF) (c # cs)
         in (if 3 \<le> length run then [LF, LF] else run) @ collapse_newlines rest)
      else c # collapse_newlines cs)"
  by pat_completeness auto
termination
proof (relation "measure length")
  fix c :: char and cs x xa
  assume "c = LF" "xa = dropWhile (\<lambda>x. x = LF) (c # cs)"
  then have "xa = dropWhile (\<lambda>x. x = LF) cs" by simp
  then have "length xa \<le> length cs" by (simp add: length_dropWhile_le)
  then show "(xa, c # cs) \<in> measure length" by simp
qed simp_all

subsection \<open>The sentence boundary\<close>

text \<open>
  The regular expression of \<open>splitIntoSentences\<close> is
  \<open>/(?<=[.!?])\s+(?=[A-Z...])|(?<=[.!?])\n+/\<close>, where the class \<open>[A-Z...]\<close> holds the
  letters A to Z and the capitals A, O and U with diaeresis (U+00C4, U+00D6, U+00DC).
  Matched at one position, with the code unit before the position and the text from it
  on, it gives the length of the match: the whole run of white space when the run follows
  one of \<open>.!?\<close> and a letter of the class follows the run (a shorter run is followed by
  white space, so backtracking finds nothing); otherwise the whole run of line feeds
  after one of \<open>.!?\<close>.
\<close>

definition isSentenceEnd :: "char \<Rightarrow> bool" where
  "isSentenceEnd c = (c = CHR ''.'' \<or> c = CHR ''!'' \<or> c = CHR ''?'')"

definition isUpper :: "char \<Rightarrow> bool" where
  "isUpper c =
     (let n = of_char c :: nat in (65 \<le> n \<and> n \<le> 90) \<or> n = 196 \<or> n = 214 \<or> n = 220)"

definition matchSentenceBoundary :: "char option \<Rightarrow> string \<Rightarrow> nat option" where
  "matchSentenceBoundary prev rest =
     (case prev of
        None \<Rightarrow> None
      | Some p \<Rightarrow>
          if \<not> isSentenceEnd p then None
          else
            let spaces = takeWhile isWhiteSpace rest;
                after = dropWhile isWhiteSpace rest
            in if spaces \<noteq> [] \<and> (case after of [] \<Rightarrow> False | a # _ \<Rightarrow> isUpper a)
               then Some (length spaces)
               else
                 let newlines = takeWhile (\<lambda>c. c = LF) rest
                 in if newlines \<noteq> [] then Some (length newlines) else None)"

text \<open>
  \<open>String.prototype.split\<close> with that expression: the scan moves right one code unit at a
  time, \<open>piece\<close> is the text since the end of the last match; at a match the piece is
  emitted and the scan continues after the match; the text after the last match is the
  last piece. Every match has a positive length.
\<close>

function splitAt :: "char option \<Rightarrow> string \<Rightarrow> string \<Rightarrow> string list" where
  "splitAt prev piece [] = [piece]"
| "splitAt prev piece (c # cs) =
     (case matchSentenceBoundary prev (c # cs) of
        Some n \<Rightarrow> piece # splitAt (Some (last (take n (c # cs)))) [] (drop n (c # cs))
      | None \<Rightarrow> splitAt (Some c) (piece @ [c]) cs)"
  by pat_completeness auto
termination
proof (relation "measure (\<lambda>(prev, piece, rest). length rest)")
  fix prev :: "char option" and piece :: string and c :: char and cs :: string and n :: nat
  assume m: "matchSentenceBoundary prev (c # cs) = Some n"
  have "0 < n"
    using m by (auto simp: matchSentenceBoundary_def Let_def split: option.splits if_splits)
  then show "((Some (last (take n (c # cs))), [], drop n (c # cs)), prev, piece, c # cs)
              \<in> measure (\<lambda>(prev, piece, rest). length rest)"
    by simp
qed simp_all

definition split_sentenceRegex :: "string \<Rightarrow> string list" where
  "split_sentenceRegex text = splitAt None [] text"

definition splitIntoSentences :: "string \<Rightarrow> string list" where
  "splitIntoSentences text =
     (let sentences = filter (\<lambda>s. 0 < length s) (map trim (split_sentenceRegex text))
      in if length sentences = 0 \<and> trim text \<noteq> [] then [trim text] else sentences)"

section \<open>Quality gates\<close>

record PageContent =
  pageNumber :: int
  content :: string

record NormalizedPage = PageContent +
  charCount :: int

datatype ErrorCode =
    extraction_empty
  | extraction_low_quality
  | needs_ocr
  | parse_failed
  | provider_rate_limited
  | timeout
  | unsupported_format
  | file_too_large
  | file_corrupted

text \<open>
  The issue messages of the source are template strings; an issue is modelled by the
  template it comes from together with the values the template interpolates.
\<close>

datatype issue =
    NoTextExtracted
  | LikelyScanned int
  | OnlyPercentHaveContent rat
  | LowExtraction int int nat
  | OnlyPercentOfPages rat nat
  | VeryLowDensity rat

record QualityResult =
  passed :: bool
  issues :: "issue list"
  errorCode :: "ErrorCode option"

text \<open>
  The ratios of the source are IEEE doubles compared with the literals \<open>0.3\<close>, \<open>0.5\<close> and
  \<open>20\<close>. They are modelled as exact rationals: for an array (fewer than \<open>2^32\<close> pages) and
  an integer total below \<open>2^53\<close>, a quotient \<open>n / pageCount\<close> that differs from the bound
  differs from it by at least \<open>1 / (10 * pageCount)\<close>, far more than the rounding error of
  the division and of the literal, and the quotient \<open>3 / 10\<close> rounds to the literal \<open>0.3\<close>
  itself; so each comparison has the same outcome on doubles and on rationals.
\<close>

definition checkExtractionQuality :: "NormalizedPage list \<Rightarrow> QualityResult" where
  "checkExtractionQuality pages =
     (let pageCount = length pages;
          totalChars = foldl (\<lambda>sum p. sum + charCount p) 0 pages;
          nonEmptyPages = length (filter (\<lambda>p. charCount p > 10) pages);
          nonEmptyRatio = (if pageCount > 0 then of_nat nonEmptyPages / of_nat pageCount else (0::rat));
          avgCharsPerPage = (if pageCount > 0 then of_int totalChars / of_nat pageCount else (0::rat))
      in
        if totalChars = 0 then
          \<lparr>passed = False, issues = [NoTextExtracted], errorCode = Some extraction_empty\<rparr>
        else if pageCount > 1 \<and> totalChars < 100 \<and> nonEmptyRatio < 3 / 10 then
          \<lparr>passed = False,
           issues = [LikelyScanned totalChars, OnlyPercentHaveContent nonEmptyRatio],
           errorCode = Some needs_ocr\<rparr>
        else
          let minTotalChars = (if pageCount = 1 then 20 else int pageCount * 50);
              issues3 = (if totalChars < minTotalChars
                         then [LowExtraction totalChars minTotalChars pageCount] else []);
              issues4 = (if pageCount > 3 \<and> nonEmptyRatio < 1 / 2
                         then issues3 @ [OnlyPercentOfPages nonEmptyRatio pageCount] else issues3);
              issues5 = (if pageCount > 5 \<and> avgCharsPerPage < 20
                         then issues4 @ [VeryLowDensity avgCharsPerPage] else issues4)
          in
            if length issues5 \<ge> 2 then
              \<lparr>passed = False, issues = issues5, errorCode = Some extraction_low_quality\<rparr>
            else
              \<lparr>passed = True, issues = issues5, errorCode = None\<rparr>)"

subsection \<open>The gate as the specification words it\<close>

definition spec_totalChars :: "NormalizedPage list \<Rightarrow> int" where
  "spec_totalChars pages = sum_list (map charCount pages)"

definition spec_nonEmptyRatio :: "NormalizedPage list \<Rightarrow> rat" where
  "spec_nonEmptyRatio pages =
     (if pages = [] then 0
      else of_nat (length (filter (\<lambda>p. 10 < charCount p) pages)) / of_nat (length pages))"

definition spec_avgCharsPerPage :: "NormalizedPage list \<Rightarrow> rat" where
  "spec_avgCharsPerPage pages =
     (if pages = [] then 0 else of_int (spec_totalChars pages) / of_nat (length pages))"

text \<open>Rules 3 to 5 of the specification, each one an issue when it holds.\<close>

definition spec_rule3 :: "NormalizedPage list \<Rightarrow> bool" where
  "spec_rule3 pages =
     (spec_totalChars pages < (if length pages = 1 then 20 else 50 * int (length pages)))"

definition spec_rule4 :: "NormalizedPage list \<Rightarrow> bool" where
  "spec_rule4 pages = (3 < length pages \<and> spec_nonEmptyRatio pages < 1 / 2)"

definition spec_rule5 :: "NormalizedPage list \<Rightarrow> bool" where
  "spec_rule5 pages = (5 < length pages \<and> spec_avgCharsPerPage pages < 20)"

definition spec_issueCount :: "NormalizedPage list \<Rightarrow> nat" where
  "spec_issueCount pages =
     length (filter id [spec_rule3 pages, spec_rule4 pages, spec_rule5 pages])"

text \<open>The outcome of the gate: \<open>None\<close> is a pass, \<open>Some code\<close> a failure with that code.\<close>

definition spec_gate :: "NormalizedPage list \<Rightarrow> ErrorCode option" where
  "spec_gate pages =
     (if spec_totalChars pages = 0 then Some extraction_empty
      else if 1 < length pages \<and> spec_totalChars pages < 100 \<and> spec_nonEmptyRatio pages < 3 / 10
        then Some needs_ocr
      else if 2 \<le> spec_issueCount pages then Some extraction_low_quality
      else None)"

section \<open>Error classifier\<close>

text \<open>The argument is the text \<open>String(error)\<close> of the value that was thrown.\<close>

definition classifyError :: "string \<Rightarrow> ErrorCode" where
  "classifyError error =
     (let msg = toLowerCase error
      in if includes_str msg ''rate limit'' \<or> includes_str msg ''429'' \<or> includes_str msg ''too many''
           then provider_rate_limited
         else if includes_str msg ''timeout'' \<or> includes_str msg ''timed out'' \<or> includes_str msg ''aborted''
           then timeout
         else if includes_str msg ''invalid pdf'' \<or> includes_str msg ''corrupt'' \<or> includes_str msg ''bad xref''
           then file_corrupted
         else if includes_str msg ''unsupported'' \<or> includes_str msg ''unknown format''
                 \<or> includes_str msg ''not supported''
           then unsupported_format
         else if includes_str msg ''too large'' \<or> includes_str msg ''size limit'' \<or> includes_str msg ''memory''
           then file_too_large
         else parse_failed)"

subsection \<open>The classifier as the specification words it\<close>

text \<open>The ordered table of the specification: the substrings of a row, and the row's code.\<close>

definition spec_rules :: "(string list \<times> ErrorCode) list" where
  "spec_rules =
     [([''rate limit'', ''429'', ''too many''], provider_rate_limited),
      ([''timeout'', ''timed out'', ''aborted''], timeout),
      ([''invalid pdf'', ''corrupt'', ''bad xref''], file_corrupted),
      ([''unsupported'', ''unknown format'', ''not supported''], unsupported_format),
      ([''too large'', ''size limit'', ''memory''], file_too_large)]"

text \<open>A string occurs in another: the other is some text, the string, and some more text.\<close>

definition occurs_in :: "string \<Rightarrow> string \<Rightarrow> bool" where
  "occurs_in needle s = (\<exists>before after. s = before @ needle @ after)"

fun spec_first_match :: "(string list \<times> ErrorCode) list \<Rightarrow> string \<Rightarrow> ErrorCode" where
  "spec_first_match [] s = parse_failed"
| "spec_first_match ((needles, code) # rest) s =
     (if list_ex (\<lambda>needle. occurs_in needle s) needles then code else spec_first_match rest s)"

definition spec_classify :: "string \<Rightarrow> ErrorCode" where
  "spec_classify error = spec_first_match spec_rules (toLowerCase error)"

section \<open>Semantic chunker\<close>

text \<open>
  A chunk as the chunker returns it; the optional \<open>metadata\<close> of the interface is never
  set by the chunker and is left out. The options are optional numbers; an absent option
  is \<open>None\<close> and takes the default of the source.
\<close>

record ChunkWithProvenance =
  content_chunk :: string
  chunkIndex :: nat
  pageStart :: int
  pageEnd :: int
  sentences :: "string list"

record ChunkOptions =
  maxChunkSize :: "int option"
  minChunkSize :: "int option"
  overlapSize :: "int option"

definition createChunk :: "string list \<Rightarrow> nat \<Rightarrow> int \<Rightarrow> int \<Rightarrow> ChunkWithProvenance" where
  "createChunk sents idx pStart pEnd =
     \<lparr>content_chunk = join '' '' sents, chunkIndex = idx, pageStart = pStart, pageEnd = pEnd,
      sentences = sents\<rparr>"

text \<open>
  \<open>getOverlapSentences\<close>: the loop walks the sentences from the last one back, adds up
  their lengths and stops at the first sentence that takes the sum above \<open>overlapSize\<close>;
  the sentences before the stop are kept, in their order.
\<close>

fun overlapLoop :: "int \<Rightarrow> int \<Rightarrow> string list \<Rightarrow> string list \<Rightarrow> string list" where
  "overlapLoop overlap totalSize [] overlapSentences = overlapSentences"
| "overlapLoop overlap totalSize (sentence # earlier) overlapSentences =
     (let totalSize' = totalSize + int (length sentence)
      in if totalSize' > overlap then overlapSentences
         else overlapLoop overlap totalSize' earlier (sentence # overlapSentences))"

definition getOverlapSentences :: "string list \<Rightarrow> int \<Rightarrow> string list" where
  "getOverlapSentences sents overlap =
     (if length sents = 0 then [] else overlapLoop overlap 0 (rev sents) [])"

text \<open>The variables of \<open>chunkPagesWithProvenance\<close> that its loops update.\<close>

record chunker =
  chunks :: "ChunkWithProvenance list"
  currentChunkSentences :: "string list"
  currentChunkSize :: int
  currentPageStart :: int
  currentPageEnd :: int
  chunkIndex_next :: nat

text \<open>
  The body of the loop \<open>for (const sentence of sentences)\<close>, for a sentence of the page
  numbered \<open>pageNo\<close>: when the sentence would take the chunk above \<open>maxChunkSize\<close> and the
  chunk has a sentence, the chunk is created, pushed if it is long enough, and the next
  chunk starts from the overlap on the current page; then the sentence is appended.
\<close>

definition addSentence :: "int \<Rightarrow> int \<Rightarrow> int \<Rightarrow> int \<Rightarrow> chunker \<Rightarrow> string \<Rightarrow> chunker" where
  "addSentence maxSize minSize overlap pageNo st sentence =
     (let sentenceSize = int (length sentence);
          st1 =
            (if currentChunkSize st + sentenceSize > maxSize \<and> length (currentChunkSentences st) > 0
             then
               let chunk = createChunk (currentChunkSentences st) (chunkIndex_next st)
                             (currentPageStart st) (currentPageEnd st);
                   st' = (if int (length (content_chunk chunk)) \<ge> minSize
                          then st\<lparr>chunks := chunks st @ [chunk],
                                  chunkIndex_next := chunkIndex_next st + 1\<rparr>
                          else st);
                   overlapSentences = getOverlapSentences (currentChunkSentences st) overlap
               in st'\<lparr>currentChunkSentences := overlapSentences,
                       currentChunkSize := int (length (join '' '' overlapSentences)),
                       currentPageStart := pageNo\<rparr>
             else st)
      in st1\<lparr>currentChunkSentences := currentChunkSentences st1 @ [trim sentence],
              currentChunkSize := currentChunkSize st1 + sentenceSize,
              currentPageEnd := pageNo\<rparr>)"

text \<open>The body of the loop \<open>for (const page of pages)\<close>.\<close>

definition addPage :: "int \<Rightarrow> int \<Rightarrow> int \<Rightarrow> chunker \<Rightarrow> PageContent \<Rightarrow> chunker" where
  "addPage maxSize minSize overlap st page =
     (if trim (content page) = [] then st
      else
        let cleanedText = trim (collapse_newlines (replace_crlf (content page)));
            sents = splitIntoSentences cleanedText
        in foldl (addSentence maxSize minSize overlap (pageNumber page)) st sents)"

definition chunkPagesWithProvenance :: "PageContent list \<Rightarrow> ChunkOptions \<Rightarrow> ChunkWithProvenance list" where
  "chunkPagesWithProvenance pages options =
     (let maxSize = (case maxChunkSize options of None \<Rightarrow> 1000 | Some v \<Rightarrow> v);
          minSize = (case minChunkSize options of None \<Rightarrow> 200 | Some v \<Rightarrow> v);
          overlap = (case overlapSize options of None \<Rightarrow> 100 | Some v \<Rightarrow> v);
          start = \<lparr>chunks = [], currentChunkSentences = [], currentChunkSize = 0,
                   currentPageStart = 1, currentPageEnd = 1, chunkIndex_next = 0\<rparr>;
          st = foldl (addPage maxSize minSize overlap) start pages
      in if length (currentChunkSentences st) > 0 then
           let chunk = createChunk (currentChunkSentences st) (chunkIndex_next st)
                         (currentPageStart st) (currentPageEnd st)
           in if int (length (content_chunk chunk)) \<ge> minSize then chunks st @ [chunk]
              else chunks st
         else chunks st)"

subsection \<open>What the chunker's output is measured against\<close>

text \<open>
  The provenance invariants of a chunk list: the indices are \<open>0..k-1\<close> in order, every
  chunk starts on a page no later than the page it ends on, and both page bounds are
  non-decreasing along the list.
\<close>

definition provenance_ok :: "ChunkWithProvenance list \<Rightarrow> bool" where
  "provenance_ok cs \<longleftrightarrow>
     map chunkIndex cs = [0..<length cs] \<and>
     (\<forall>c\<in>set cs. pageStart c \<le> pageEnd c) \<and>
     sorted (map pageEnd cs) \<and>
     sorted (map pageStart cs)"

text \<open>
  The loop invariant for the provenance: \<open>bound\<close> is the number of the last page the loop
  has read.
\<close>

definition chunker_inv :: "int \<Rightarrow> chunker \<Rightarrow> bool" where
  "chunker_inv bound st \<longleftrightarrow>
     provenance_ok (chunks st) \<and>
     chunkIndex_next st = length (chunks st) \<and>
     (\<forall>c\<in>set (chunks st). pageStart c \<le> currentPageStart st \<and> pageEnd c \<le> currentPageEnd st) \<and>
     currentPageStart st \<le> currentPageEnd st \<and>
     currentPageEnd st \<le> bound"

text \<open>The pages that have text: those the loop does not skip.\<close>

definition textPages :: "PageContent list \<Rightarrow> PageContent list" where
  "textPages pages = filter (\<lambda>page. trim (content page) \<noteq> []) pages"

text \<open>
  The loop invariant for the indices, which needs nothing of the page numbers: the chunks
  pushed so far carry the indices \<open>0..k-1\<close> and the counter is \<open>k\<close>.
\<close>

definition index_inv :: "chunker \<Rightarrow> bool" where
  "index_inv st \<longleftrightarrow>
     map chunkIndex (chunks st) = [0..<length (chunks st)] \<and>
     chunkIndex_next st = length (chunks st)"

text \<open>
  The loop invariant for \<open>pageEnd\<close> alone, which needs the page numbers in order but no
  lower bound on them: \<open>currentPageEnd\<close> is a page number that was read as soon as the
  current chunk holds a sentence, and no chunk is pushed before that.
\<close>

definition pageEnd_inv :: "int \<Rightarrow> chunker \<Rightarrow> bool" where
  "pageEnd_inv bound st \<longleftrightarrow>
     sorted (map pageEnd (chunks st)) \<and>
     (\<forall>c\<in>set (chunks st). pageEnd c \<le> currentPageEnd st) \<and>
     (currentChunkSentences st = [] \<longrightarrow> chunks st = []) \<and>
     (currentChunkSentences st \<noteq> [] \<longrightarrow> currentPageEnd st \<le> bound)"

text \<open>
  The sentences the loop appends for one page, and for a page list, in order: a page
  whose content trims to nothing is skipped; each sentence is trimmed as it is appended.
\<close>

definition pageSentences :: "PageContent \<Rightarrow> string list" where
  "pageSentences page =
     (if trim (content page) = [] then []
      else map trim (splitIntoSentences (trim (collapse_newlines (replace_crlf (content page))))))"

definition documentSentences :: "PageContent list \<Rightarrow> string list" where
  "documentSentences pages = concat (map pageSentences pages)"

text \<open>
  The loop invariant for the content: every chunk emitted so far is at least \<open>minSize\<close>
  long, holds a contiguous run of the sentences \<open>seen\<close> so far and has them joined by
  single spaces as its content; the sentences of the chunk being built end the sentences
  seen.
\<close>

definition chunks_from :: "int \<Rightarrow> string list \<Rightarrow> ChunkWithProvenance list \<Rightarrow> bool" where
  "chunks_from minSize seen cs \<longleftrightarrow>
     (\<forall>c\<in>set cs. minSize \<le> int (length (content_chunk c)) \<and>
                 sublist (sentences c) seen \<and>
                 content_chunk c = join '' '' (sentences c))"

definition content_inv :: "int \<Rightarrow> string list \<Rightarrow> chunker \<Rightarrow> bool" where
  "content_inv minSize seen st \<longleftrightarrow>
     suffix (currentChunkSentences st) seen \<and> chunks_from minSize seen (chunks st)"

text \<open>The minimum chunk size in force, with the default of the source.\<close>

definition minSize_of :: "ChunkOptions \<Rightarrow> int" where
  "minSize_of options = (case minChunkSize options of None \<Rightarrow> 200 | Some v \<Rightarrow> v)"

text \<open>
  The length of a list of strings counting one separator after each, and the number of
  characters in all the pages of a list.
\<close>

definition weight :: "string list \<Rightarrow> nat" where
  "weight xs = sum_list (map length xs) + length xs"

definition textLength :: "PageContent list \<Rightarrow> nat" where
  "textLength pages = sum_list (map (\<lambda>page. length (content page)) pages)"

section \<open>Parsers\<close>

text \<open>
  The normalized output of every parser. The metadata differ from parser to parser, so
  the record is polymorphic in them; an absent metadata field is \<open>None\<close>.
\<close>

record 'm ParsedDocument =
  pages_doc :: "PageContent list"
  totalPages :: nat
  totalChars :: nat
  totalWords :: nat
  metadata :: 'm
  parserUsed :: string

subsection \<open>Plain text\<close>

text \<open>
  \<open>.replace(/\r/g, '\n')\<close>, \<open>String.prototype.split\<close> with a separator of one character,
  and \<open>.split(/\s+/).filter(Boolean).length\<close>, the number of words: a run of white space
  separates two pieces, and the empty pieces are not counted.
\<close>

definition replace_cr :: "string \<Rightarrow> string" where
  "replace_cr s = map (\<lambda>c. if c = CR then LF else c) s"

fun split_on :: "char \<Rightarrow> string \<Rightarrow> string list" where
  "split_on sep [] = [[]]"
| "split_on sep (c # cs) =
     (if c = sep then [] # split_on sep cs
      else (case split_on sep cs of piece # pieces \<Rightarrow> (c # piece) # pieces | [] \<Rightarrow> [[c]]))"

function split_whitespace :: "string \<Rightarrow> string \<Rightarrow> string list" where
  "split_whitespace piece [] = [piece]"
| "split_whitespace piece (c # cs) =
     (if isWhiteSpace c then piece # split_whitespace [] (dropWhile isWhiteSpace cs)
      else split_whitespace (piece @ [c]) cs)"
  by pat_completeness auto
termination
proof (relation "measure (\<lambda>(piece, rest). length rest)")
  fix piece :: string and c :: char and cs :: string
  have "length (dropWhile isWhiteSpace cs) \<le> length cs" by (rule length_dropWhile_le)
  then show "(([], dropWhile isWhiteSpace cs), piece, c # cs) \<in> measure (\<lambda>(piece, rest). length rest)"
    by simp
qed simp_all

definition countWords :: "string \<Rightarrow> nat" where
  "countWords s = length (filter (\<lambda>w. w \<noteq> []) (split_whitespace [] s))"

record TxtMetadata =
  lineCount :: "nat option"
  encoding :: string

definition LINES_PER_PAGE :: nat where
  "LINES_PER_PAGE = 100"

text \<open>
  The loop \<open>for (let i = 0; i < lines.length; i += LINES_PER_PAGE)\<close> of \<open>extractWithTxt\<close>:
  a window of lines that trims to nothing pushes no page, and the page number comes from
  the position of the window, \<open>Math.floor(i / LINES_PER_PAGE) + 1\<close>.
\<close>

function txtPageLoop :: "nat \<Rightarrow> string list \<Rightarrow> PageContent list \<Rightarrow> PageContent list" where
  "txtPageLoop i lines pages =
     (if i < length lines then
        let pageLines = take LINES_PER_PAGE (drop i lines);
            pageContent = trim (join [LF] pageLines)
        in txtPageLoop (i + LINES_PER_PAGE) lines
             (if pageContent \<noteq> []
              then pages @ [\<lparr>pageNumber = int (i div LINES_PER_PAGE) + 1, content = pageContent\<rparr>]
              else pages)
      else pages)"
  by pat_completeness auto
termination
  by (relation "measure (\<lambda>(i, lines, pages). length lines - i)") (auto simp: LINES_PER_PAGE_def)

declare txtPageLoop.simps [simp del]

text \<open>The argument is the text \<open>buffer.toString('utf-8')\<close> of the file.\<close>

definition extractWithTxt :: "string \<Rightarrow> TxtMetadata ParsedDocument" where
  "extractWithTxt decoded =
     (let normalized = trim (replace_cr (replace_crlf decoded))
      in if normalized = [] then
           \<lparr>pages_doc = [], totalPages = 0, totalChars = 0, totalWords = 0,
            metadata = \<lparr>lineCount = None, encoding = ''utf-8''\<rparr>, parserUsed = ''txt''\<rparr>
         else
           let lines = split_on LF normalized;
               pages = txtPageLoop 0 lines []
           in \<lparr>pages_doc = pages, totalPages = length pages, totalChars = length normalized,
               totalWords = countWords normalized,
               metadata = \<lparr>lineCount = Some (length lines), encoding = ''utf-8''\<rparr>,
               parserUsed = ''txt''\<rparr>)"

subsection \<open>CSV\<close>

text \<open>
  The CSV library is not part of the repository; what is modelled of it is what the call
  of the parser depends on.

  A file is the list of its lines as the library splits them into cells, blank lines
  included. A row of \<open>result.data\<close> is an object; the parser only reads it, as
  \<open>row[h]?.toString()\<close>, so a row is modelled by that reading: \<open>None\<close> where \<open>row[h]\<close> is
  undefined or null, and otherwise the text of \<open>row[h].toString()\<close>, also for a member the
  object inherits. A line carries, beside its cells, the object the library builds from
  it under the header of the file.
\<close>

type_synonym csv_row = "string \<Rightarrow> string option"

record csv_line =
  cells :: "string list"
  rowObject :: csv_row

record CsvFile =
  records :: "csv_line list"
  parse_errors :: "string list"

record PapaResult =
  data :: "csv_row list"
  errors :: "string list"
  meta_fields :: "string list option"

record CsvMetadata =
  rowCount :: "nat option"
  columnCount :: "nat option"
  columns :: "string list"
  truncated :: "bool option"
  parseErrors :: "string list option"

definition MAX_ROWS :: nat where
  "MAX_ROWS = 10000"

definition ROWS_PER_PAGE :: nat where
  "ROWS_PER_PAGE = 100"

text \<open>
  A line is empty for \<open>skipEmptyLines: true\<close> when it has one cell and that cell is the
  empty string: a blank line of the file, and also the line of an empty cell in a file
  of one column.
\<close>

definition testEmptyLine :: "csv_line \<Rightarrow> bool" where
  "testEmptyLine l \<longleftrightarrow> cells l = [[]]"

text \<open>
  The call \<open>Papa.parse(csvText, {header: true, skipEmptyLines: true, preview, transformHeader})\<close>.
  With \<open>header: true\<close> the library reads one line more than \<open>preview\<close>, for the header row;
  a preview of 0 reads the whole file. The lines are counted as they are read, blank ones
  too; the empty lines are removed from what was read afterwards; the first line left is
  the header row, whose cells go through \<open>transformHeader\<close>, and the others are the data
  rows. The renaming of header names that occur twice, and the errors the library adds
  for rows with too few or too many cells, are left to the two fields of the file.
\<close>

definition Papa_parse :: "CsvFile \<Rightarrow> nat \<Rightarrow> (string \<Rightarrow> string) \<Rightarrow> PapaResult" where
  "Papa_parse file preview transformHeader =
     (let parsed = (if preview = 0 then records file else take (preview + 1) (records file));
          kept = filter (\<lambda>l. \<not> testEmptyLine l) parsed
      in case kept of
           [] \<Rightarrow> \<lparr>data = [], errors = parse_errors file, meta_fields = Some []\<rparr>
         | header # rest \<Rightarrow>
             \<lparr>data = map rowObject rest, errors = parse_errors file,
              meta_fields = Some (map transformHeader (cells header))\<rparr>)"

text \<open>
  One data row as a line \<open>Header: value | Header: value\<close>: the cell of each header,
  trimmed, and left out when it is missing or empty.
\<close>

definition csvLine :: "string list \<Rightarrow> csv_row \<Rightarrow> string" where
  "csvLine headers row =
     join '' | ''
       (concat (map (\<lambda>h. let v = (case row h of None \<Rightarrow> [] | Some x \<Rightarrow> trim x)
                           in if v \<noteq> [] then [h @ '': '' @ v] else [])
                    headers))"

function csvPageLoop :: "string list \<Rightarrow> nat \<Rightarrow> csv_row list \<Rightarrow> PageContent list \<Rightarrow> PageContent list" where
  "csvPageLoop headers i rows pages =
     (if i < length rows then
        let pageRows = take ROWS_PER_PAGE (drop i rows);
            pageText = join [LF] (filter (\<lambda>line. 0 < length line) (map (csvLine headers) pageRows))
        in csvPageLoop headers (i + ROWS_PER_PAGE) rows
             (if pageText \<noteq> []
              then pages @ [\<lparr>pageNumber = int (i div ROWS_PER_PAGE) + 1, content = pageText\<rparr>]
              else pages)
      else pages)"
  by pat_completeness auto
termination
  by (relation "measure (\<lambda>(headers, i, rows, pages). length rows - i)") (auto simp: ROWS_PER_PAGE_def)

declare csvPageLoop.simps [simp del]

definition extractWithCsv :: "CsvFile \<Rightarrow> CsvMetadata ParsedDocument" where
  "extractWithCsv file =
     (let result = Papa_parse file MAX_ROWS trim;
          rows = data result;
          headers = (case meta_fields result of None \<Rightarrow> [] | Some fs \<Rightarrow> fs)
      in if length rows = 0 then
           \<lparr>pages_doc = [], totalPages = 0, totalChars = 0, totalWords = 0,
            metadata = \<lparr>rowCount = None, columnCount = None, columns = headers,
                        truncated = None, parseErrors = Some (take 5 (errors result))\<rparr>,
            parserUsed = ''csv''\<rparr>
         else
           let pages = csvPageLoop headers 0 rows []
           in \<lparr>pages_doc = pages, totalPages = length pages,
               totalChars = foldl (\<lambda>sum p. sum + length (content p)) 0 pages,
               totalWords = foldl (\<lambda>sum p. sum + countWords (content p)) 0 pages,
               metadata = \<lparr>rowCount = Some (length rows), columnCount = Some (length headers),
                           columns = headers, truncated = Some (length rows \<ge> MAX_ROWS),
                           parseErrors = (if length (errors result) > 0
                                          then Some (take 5 (errors result)) else None)\<rparr>,
               parserUsed = ''csv''\<rparr>)"

text \<open>
  The data rows of the whole file: its lines that are not empty, without the header row.
\<close>

definition dataRows :: "CsvFile \<Rightarrow> csv_line list" where
  "dataRows file = tl (filter (\<lambda>l. \<not> testEmptyLine l) (records file))"

text \<open>
  The files on which the preview counts no line that the parser then throws away while
  rows are still to come: no line among the first 10 001 is empty, or every line after
  them is.
\<close>

definition previewCountsRows :: "CsvFile \<Rightarrow> bool" where
  "previewCountsRows file \<longleftrightarrow>
     list_all (\<lambda>l. \<not> testEmptyLine l) (take 10001 (records file)) \<or>
     list_all testEmptyLine (drop 10001 (records file))"

text \<open>
  The line of a row whose cells are as many as the header names, when these are distinct
  and none is a member that every object inherits: the object maps each name to its cell.
\<close>

definition csvRecord :: "string list \<Rightarrow> string list \<Rightarrow> csv_line" where
  "csvRecord names cs = \<lparr>cells = cs, rowObject = map_of (zip names cs)\<rparr>"

subsection \<open>XLSX\<close>

text \<open>
  The spreadsheet library is not part of the repository. A workbook is modelled by its
  sheet names, in order, and for each name the rows \<open>sheet_to_json\<close> gives for the sheet
  (\<open>header: 1, defval: '', blankrows: false\<close>): a list of rows, each a list of cell values,
  the first row being the headers. The source types a row as \<open>string[]\<close>, but the library
  gives the values of the cells: a string, or another value (a number, a boolean, a date,
  null), which is modelled by whether it is truthy and by the text \<open>String\<close> gives for it.
  The number 0 is \<open>Value False ''0''\<close>, the number 7 is \<open>Value True ''7''\<close>.
\<close>

datatype cell = Text string | Value bool string

fun truthy :: "cell \<Rightarrow> bool" where
  "truthy (Text s) = (s \<noteq> [])"
| "truthy (Value t s) = t"

fun String_cell :: "cell \<Rightarrow> string" where
  "String_cell (Text s) = s"
| "String_cell (Value t s) = s"

type_synonym sheet_data = "cell list list"

record Workbook =
  SheetNames :: "string list"
  Sheets :: "string \<Rightarrow> sheet_data"

record SheetInfo =
  rows :: nat
  truncated_sheet :: bool

record XlsxMetadata =
  sheetCount :: nat
  sheetNames :: "string list"
  processedSheets :: nat
  sheetInfo :: "(string \<times> SheetInfo) list"

definition MAX_ROWS_PER_SHEET :: nat where
  "MAX_ROWS_PER_SHEET = 5000"

text \<open>
  \<open>sheetInfo\<close> is an object used as a dictionary. An object is modelled by its own
  properties, as the list of keys and values in the order \<open>Object.keys\<close> gives: first the
  keys that are array indices (\<open>0\<close>, or digits with no leading zero, below \<open>2^32 - 1\<close>), by
  value, then the other keys as they were added. The assignment \<open>obj[key] = value\<close> of an
  object value replaces the value of a key the object has and adds the key otherwise,
  except for the key \<open>__proto__\<close>, where it sets the prototype of the object and adds no
  key.
\<close>

definition isDigit :: "char \<Rightarrow> bool" where
  "isDigit c \<longleftrightarrow> 48 \<le> (of_char c :: nat) \<and> (of_char c :: nat) \<le> 57"

definition arrayIndex :: "string \<Rightarrow> int option" where
  "arrayIndex key =
     (if key \<noteq> [] \<and> list_all isDigit key \<and> (key = ''0'' \<or> hd key \<noteq> CHR ''0'') then
        let n = foldl (\<lambda>acc c. 10 * acc + (of_char c - 48)) 0 key
        in if n < 4294967295 then Some n else None
      else None)"

fun insertIndex :: "int \<Rightarrow> string \<Rightarrow> 'v \<Rightarrow> (string \<times> 'v) list \<Rightarrow> (string \<times> 'v) list" where
  "insertIndex n key v [] = [(key, v)]"
| "insertIndex n key v ((k, w) # rest) =
     (case arrayIndex k of
        Some m \<Rightarrow> if m < n then (k, w) # insertIndex n key v rest else (key, v) # (k, w) # rest
      | None \<Rightarrow> (key, v) # (k, w) # rest)"

definition assignProperty :: "string \<Rightarrow> 'v \<Rightarrow> (string \<times> 'v) list \<Rightarrow> (string \<times> 'v) list" where
  "assignProperty key v obj =
     (if key = ''__proto__'' then obj
      else if key \<in> fst ` set obj then AList.update key v obj
      else case arrayIndex key of
             Some n \<Rightarrow> insertIndex n key v obj
           | None \<Rightarrow> obj @ [(key, v)])"

text \<open>The variables of the loop over the sheets.\<close>

record xlsx_loop =
  pages_x :: "PageContent list"
  totalChars_x :: nat
  totalWords_x :: nat
  pageNumber_x :: int
  sheetInfo_x :: "(string \<times> SheetInfo) list"

text \<open>
  \<open>String(row[i] || '')\<close>: a cell beyond the end of the row is \<open>undefined\<close> and reads as
  empty, and so does every value that is not truthy: the empty string, and also the
  number 0 and the boolean false.
\<close>

definition cellAt :: "cell list \<Rightarrow> nat \<Rightarrow> string" where
  "cellAt row i = (if i < length row \<and> truthy (row ! i) then String_cell (row ! i) else [])"

definition rowText :: "cell list \<Rightarrow> cell list \<Rightarrow> string" where
  "rowText headers row =
     join '' | ''
       (concat (map (\<lambda>(i, h). let header = trim (String_cell h); v = trim (cellAt row i)
                                in if v \<noteq> [] then [header @ '': '' @ v] else [])
                    (enumerate 0 headers)))"

text \<open>The body of the loop \<open>for (const sheetName of workbook.SheetNames)\<close>.\<close>

definition processSheet :: "Workbook \<Rightarrow> xlsx_loop \<Rightarrow> string \<Rightarrow> xlsx_loop" where
  "processSheet workbook st sheetName =
     (let sheetRows = Sheets workbook sheetName
      in if length sheetRows = 0 then st
         else
           let isTruncated = (length sheetRows > MAX_ROWS_PER_SHEET);
               kept = (if isTruncated then take MAX_ROWS_PER_SHEET sheetRows else sheetRows);
               headers = (case kept of [] \<Rightarrow> [] | h # _ \<Rightarrow> h);
               dataRows = drop 1 kept
           in if length dataRows = 0 then st
              else
                let rowTexts = filter (\<lambda>line. 0 < length line) (map (rowText headers) dataRows)
                in if length rowTexts = 0 then st
                   else
                     let pageText = ''[Sheet: '' @ sheetName @ '']'' @ [LF] @ join [LF] rowTexts
                     in st\<lparr>pages_x := pages_x st @ [\<lparr>pageNumber = pageNumber_x st, content = pageText\<rparr>],
                            totalChars_x := totalChars_x st + length pageText,
                            totalWords_x := totalWords_x st + countWords pageText,
                            pageNumber_x := pageNumber_x st + 1,
                            sheetInfo_x := assignProperty sheetName
                               \<lparr>rows = length dataRows, truncated_sheet = isTruncated\<rparr>
                               (sheetInfo_x st)\<rparr>)"

definition extractWithXlsx :: "Workbook \<Rightarrow> XlsxMetadata ParsedDocument" where
  "extractWithXlsx workbook =
     (let start = \<lparr>pages_x = [], totalChars_x = 0, totalWords_x = 0, pageNumber_x = 1,
                   sheetInfo_x = []\<rparr>;
          st = foldl (processSheet workbook) start (SheetNames workbook)
      in \<lparr>pages_doc = pages_x st, totalPages = length (pages_x st),
          totalChars = totalChars_x st, totalWords = totalWords_x st,
          metadata = \<lparr>sheetCount = length (SheetNames workbook),
                      sheetNames = SheetNames workbook,
                      processedSheets = length (sheetInfo_x st),
                      sheetInfo = sheetInfo_x st\<rparr>,
          parserUsed = ''xlsx''\<rparr>)"

text \<open>The variables of the loop before the first sheet.\<close>

definition xlsx_start :: xlsx_loop where
  "xlsx_start = \<lparr>pages_x = [], totalChars_x = 0, totalWords_x = 0, pageNumber_x = 1,
                   sheetInfo_x = []\<rparr>"

text \<open>
  What a sheet contributes, read off the loop body: the lines of its data rows, whether
  it is skipped (no line at all: an empty sheet, a sheet with headers only, or data rows
  that give no text), the text of its page and its entry in \<open>sheetInfo\<close>.
\<close>

definition sheetLines :: "sheet_data \<Rightarrow> string list" where
  "sheetLines sheetRows =
     (let kept = take MAX_ROWS_PER_SHEET sheetRows
      in filter (\<lambda>line. 0 < length line)
           (map (rowText (case kept of [] \<Rightarrow> [] | h # _ \<Rightarrow> h)) (drop 1 kept)))"

definition sheetSkipped :: "sheet_data \<Rightarrow> bool" where
  "sheetSkipped sheetRows = (sheetLines sheetRows = [])"

definition sheetText :: "string \<Rightarrow> sheet_data \<Rightarrow> string" where
  "sheetText sheetName sheetRows =
     ''[Sheet: '' @ sheetName @ '']'' @ [LF] @ join [LF] (sheetLines sheetRows)"

definition sheetInfoOf :: "sheet_data \<Rightarrow> SheetInfo" where
  "sheetInfoOf sheetRows =
     \<lparr>rows = min 4999 (length sheetRows - 1), truncated_sheet = (5000 < length sheetRows)\<rparr>"

definition processedNames :: "Workbook \<Rightarrow> string list \<Rightarrow> string list" where
  "processedNames workbook names = filter (\<lambda>name. \<not> sheetSkipped (Sheets workbook name)) names"

text \<open>
  Three workbooks to evaluate the parser on: one with a sheet that is skipped and a cell
  that holds the number 0, one with a sheet of a header row and 5 000 data rows, and one
  with a sheet named \<open>__proto__\<close>.
\<close>

definition small_workbook :: Workbook where
  "small_workbook =
     \<lparr>SheetNames = [''People'', ''Empty'', ''Pets''],
      Sheets = (\<lambda>name. if name = ''People''
                          then [[Text ''name'', Text ''age''], [Text ''Ann'', Value True ''7''],
                                [Text ''Bob'', Value False ''0'']]
                        else if name = ''Pets'' then [[Text ''pet''], [Text ''cat'']]
                        else [[Text ''only header'']])\<rparr>"

definition big_workbook :: Workbook where
  "big_workbook =
     \<lparr>SheetNames = [''Data''], Sheets = (\<lambda>name. [Text ''id''] # replicate 5000 [Value True ''7''])\<rparr>"

definition proto_workbook :: Workbook where
  "proto_workbook =
     \<lparr>SheetNames = [''__proto__''], Sheets = (\<lambda>name. [[Text ''id''], [Value True ''7'']])\<rparr>"

text \<open>
  Three files with the one column \<open>name\<close>: the header row and 10 000 data rows; the
  header row, a blank line and 10 001 data rows; and the header row, two data rows and
  the empty line that the line feed at the end of a file leaves.
\<close>

definition full_csv :: CsvFile where
  "full_csv = \<lparr>records = csvRecord [''name''] [''name''] # replicate 10000 (csvRecord [''name''] [''Ann'']),
               parse_errors = []\<rparr>"

definition blank_line_csv :: CsvFile where
  "blank_line_csv =
     \<lparr>records = csvRecord [''name''] [''name''] # csvRecord [''name''] [[]]
                 # replicate 10001 (csvRecord [''name''] [''Ann'']),
      parse_errors = []\<rparr>"

definition short_csv :: CsvFile where
  "short_csv =
     \<lparr>records = [csvRecord [''name''] [''name''], csvRecord [''name''] [''Ann''],
                 csvRecord [''name''] [''Bob''], csvRecord [''name''] [[]]],
      parse_errors = []\<rparr>"

text \<open>
  A file with the columns \<open>name\<close> and \<open>city\<close>: 100 data rows whose two cells are empty,
  then a row with a name.
\<close>

definition gap_csv :: CsvFile where
  "gap_csv =
     \<lparr>records = csvRecord [''name'', ''city''] [''name'', ''city'']
                 # replicate 100 (csvRecord [''name'', ''city''] [[], []])
                 @ [csvRecord [''name'', ''city''] [''Ann'', []]],
      parse_errors = []\<rparr>"

section \<open>Deleting a document\<close>

text \<open>
  The tables the handler touches, with the columns it reads or writes; statuses and
  error codes are the strings of the source. Time is a number, \<open>now\<close> stands for
  \<open>new Date()\<close>. The statements on the database are taken to succeed.
\<close>

record Document =
  id_doc :: string
  businessId_doc :: string
  status_doc :: string
  updatedAt_doc :: nat
  deletedAt :: "nat option"

record DocumentVersion =
  id_version :: string
  documentId_version :: string

record IngestionJob =
  id_job :: string
  documentVersionId :: string
  status_job :: string
  errorCode_job :: "string option"
  lastError :: "string option"
  updatedAt_job :: nat

record Database =
  documents :: "Document list"
  documentVersions :: "DocumentVersion list"
  ingestionJobs :: "IngestionJob list"

record JsonResponse =
  httpStatus :: nat
  body :: "(string \<times> string) list"

text \<open>
  The update of the ingestion jobs for one version:
  \<open>where(and(eq(ingestionJobs.documentVersionId, version.id), eq(ingestionJobs.status, 'queued')))\<close>.
\<close>

definition cancelQueuedJobs :: "nat \<Rightarrow> Database \<Rightarrow> DocumentVersion \<Rightarrow> Database" where
  "cancelQueuedJobs now db version =
     db\<lparr>ingestionJobs :=
          map (\<lambda>job. if documentVersionId job = id_version version \<and> status_job job = ''queued''
                      then job\<lparr>status_job := ''failed'',
                               errorCode_job := Some ''document_deleted'',
                               lastError := Some ''Document deleted'',
                               updatedAt_job := now\<rparr>
                      else job)
              (ingestionJobs db)\<rparr>"

text \<open>
  The handler \<open>DELETE /api/documents/[id]\<close>. \<open>requireBusinessAccess\<close> belongs to the
  access-control collaborator and is a parameter: it gives the message of the error it
  throws, or \<open>None\<close> when the caller has access. The result is the response and the
  database after the request.
\<close>

definition DELETE ::
  "(string \<Rightarrow> string option) \<Rightarrow> nat \<Rightarrow> Database \<Rightarrow> string \<Rightarrow> string option
     \<Rightarrow> JsonResponse \<times> Database" where
  "DELETE requireBusinessAccess now db documentId businessIdParam =
     (case businessIdParam of
        None \<Rightarrow>
          (\<lparr>httpStatus = 400, body = [(''error'', ''businessId query parameter is required'')]\<rparr>, db)
      | Some businessId \<Rightarrow>
          if businessId = [] then
            (\<lparr>httpStatus = 400, body = [(''error'', ''businessId query parameter is required'')]\<rparr>, db)
          else
            (case requireBusinessAccess businessId of
               Some message \<Rightarrow>
                 if includes_str message ''Unauthorized'' then
                   (\<lparr>httpStatus = 401, body = [(''error'', message)]\<rparr>, db)
                 else if includes_str message ''Access denied'' then
                   (\<lparr>httpStatus = 403, body = [(''error'', message)]\<rparr>, db)
                 else
                   (\<lparr>httpStatus = 500, body = [(''error'', ''Failed to delete document'')]\<rparr>, db)
             | None \<Rightarrow>
                 (case find (\<lambda>d. id_doc d = documentId \<and> businessId_doc d = businessId)
                         (documents db) of
                    None \<Rightarrow>
                      (\<lparr>httpStatus = 404, body = [(''error'', ''Document not found'')]\<rparr>, db)
                  | Some doc \<Rightarrow>
                      if status_doc doc = ''deleted'' \<or> status_doc doc = ''deleted_pending'' then
                        (\<lparr>httpStatus = 200,
                          body = [(''success'', ''true''), (''status'', status_doc doc),
                                  (''message'',
                                   if status_doc doc = ''deleted'' then ''Document already deleted''
                                   else ''Document deletion in progress'')]\<rparr>, db)
                      else
                        let db1 = db\<lparr>documents :=
                                       map (\<lambda>d. if id_doc d = documentId
                                                 then d\<lparr>status_doc := ''deleted_pending'',
                                                        updatedAt_doc := now,
                                                        deletedAt := Some now\<rparr>
                                                 else d)
                                           (documents db)\<rparr>;
                            versions = filter (\<lambda>v. documentId_version v = documentId)
                                         (documentVersions db1);
                            db2 = foldl (cancelQueuedJobs now) db1 versions
                        in (\<lparr>httpStatus = 200,
                             body = [(''success'', ''true''), (''status'', ''deleted_pending''),
                                     (''message'',
                                      ''Document marked for deletion. Cleanup will complete shortly.'')]\<rparr>,
                            db2))))"

text \<open>A job as the handler leaves it when it cancels it.\<close>

definition failJob :: "nat \<Rightarrow> IngestionJob \<Rightarrow> IngestionJob" where
  "failJob now job =
     job\<lparr>status_job := ''failed'', errorCode_job := Some ''document_deleted'',
         lastError := Some ''Document deleted'', updatedAt_job := now\<rparr>"

text \<open>A database to run the handler on: one active document with two versions and four jobs.\<close>

definition example_db :: Database where
  "example_db =
     \<lparr>documents = [\<lparr>id_doc = ''d1'', businessId_doc = ''b1'', status_doc = ''active'',
                     updatedAt_doc = 0, deletedAt = None\<rparr>],
      documentVersions = [\<lparr>id_version = ''v1'', documentId_version = ''d1''\<rparr>,
                          \<lparr>id_version = ''v2'', documentId_version = ''d1''\<rparr>],
      ingestionJobs =
        [\<lparr>id_job = ''j1'', documentVersionId = ''v1'', status_job = ''done'',
          errorCode_job = None, lastError = None, updatedAt_job = 0\<rparr>,
         \<lparr>id_job = ''j2'', documentVersionId = ''v2'', status_job = ''queued'',
          errorCode_job = None, lastError = None, updatedAt_job = 0\<rparr>,
         \<lparr>id_job = ''j3'', documentVersionId = ''v2'', status_job = ''processing'',
          errorCode_job = None, lastError = None, updatedAt_job = 0\<rparr>,
         \<lparr>id_job = ''j4'', documentVersionId = ''v1'', status_job = ''retry_ready'',
          errorCode_job = None, lastError = None, updatedAt_job = 0\<rparr>]\<rparr>"

section \<open>Encryption box\<close>

text \<open>
  \<open>decrypt\<close> calls Node's \<open>Buffer\<close> and \<open>crypto\<close>, which are not part of the repository.
  They are modelled as far as \<open>decrypt\<close> uses them: the base64 decoder, the cipher
  AES-256-GCM as FIPS 197 and NIST SP 800-38D define it, and the decipher object with the
  checks the library makes on the IV and on the tag. A value thrown is an error object,
  given by its class and its message. The UTF-8 decoder of \<open>toString\<close> is a parameter.
\<close>

unbundle bit_operations_syntax

type_synonym Buffer = "8 word list"

datatype thrown = Error string | TypeError string | RangeError string

subsection \<open>Base64\<close>

text \<open>
  \<open>Buffer.from(s, 'base64')\<close>: characters outside the alphabet are skipped, the URL-safe
  characters are accepted, and \<open>=\<close> ends the input.
\<close>

definition sextet :: "char \<Rightarrow> nat option" where
  "sextet c =
     (let n = of_char c :: nat
      in if 65 \<le> n \<and> n \<le> 90 then Some (n - 65)
         else if 97 \<le> n \<and> n \<le> 122 then Some (n - 71)
         else if 48 \<le> n \<and> n \<le> 57 then Some (n + 4)
         else if c = CHR ''+'' \<or> c = CHR ''-'' then Some 62
         else if c = CHR ''/'' \<or> c = CHR ''_'' then Some 63
         else None)"

fun pack_sextets :: "nat list \<Rightarrow> Buffer" where
  "pack_sextets (a # b # c # d # rest) =
     [of_nat (a * 4 + b div 16), of_nat ((b mod 16) * 16 + c div 4), of_nat ((c mod 4) * 64 + d)]
       @ pack_sextets rest"
| "pack_sextets [a, b, c] = [of_nat (a * 4 + b div 16), of_nat ((b mod 16) * 16 + c div 4)]"
| "pack_sextets [a, b] = [of_nat (a * 4 + b div 16)]"
| "pack_sextets _ = []"

definition base64_decode :: "string \<Rightarrow> Buffer" where
  "base64_decode s = pack_sextets (List.map_filter sextet (takeWhile (\<lambda>c. c \<noteq> CHR ''='') s))"

subsection \<open>AES-256\<close>

text \<open>
  The block cipher of FIPS 197 with a key of 32 bytes: 14 rounds on a state of 16 bytes,
  kept in the order of the input (column by column). Bytes are integers from 0 to 255.
\<close>

definition SBOX :: "int list list" where
  "SBOX =
     [[0x63, 0x7c, 0x77, 0x7b, 0xf2, 0x6b, 0x6f, 0xc5, 0x30, 0x01, 0x67, 0x2b, 0xfe, 0xd7, 0xab, 0x76],
      [0xca, 0x82, 0xc9, 0x7d, 0xfa, 0x59, 0x47, 0xf0, 0xad, 0xd4, 0xa2, 0xaf, 0x9c, 0xa4, 0x72, 0xc0],
      [0xb7, 0xfd, 0x93, 0x26, 0x36, 0x3f, 0xf7, 0xcc, 0x34, 0xa5, 0xe5, 0xf1, 0x71, 0xd8, 0x31, 0x15],
      [0x04, 0xc7, 0x23, 0xc3, 0x18, 0x96, 0x05, 0x9a, 0x07, 0x12, 0x80, 0xe2, 0xeb, 0x27, 0xb2, 0x75],
      [0x09, 0x83, 0x2c, 0x1a, 0x1b, 0x6e, 0x5a, 0xa0, 0x52, 0x3b, 0xd6, 0xb3, 0x29, 0xe3, 0x2f, 0x84],
      [0x53, 0xd1, 0x00, 0xed, 0x20, 0xfc, 0xb1, 0x5b, 0x6a, 0xcb, 0xbe, 0x39, 0x4a, 0x4c, 0x58, 0xcf],
      [0xd0, 0xef, 0xaa, 0xfb, 0x43, 0x4d, 0x33, 0x85, 0x45, 0xf9, 0x02, 0x7f, 0x50, 0x3c, 0x9f, 0xa8],
      [0x51, 0xa3, 0x40, 0x8f, 0x92, 0x9d, 0x38, 0xf5, 0xbc, 0xb6, 0xda, 0x21, 0x10, 0xff, 0xf3, 0xd2],
      [0xcd, 0x0c, 0x13, 0xec, 0x5f, 0x97, 0x44, 0x17, 0xc4, 0xa7, 0x7e, 0x3d, 0x64, 0x5d, 0x19, 0x73],
      [0x60, 0x81, 0x4f, 0xdc, 0x22, 0x2a, 0x90, 0x88, 0x46, 0xee, 0xb8, 0x14, 0xde, 0x5e, 0x0b, 0xdb],
      [0xe0, 0x32, 0x3a, 0x0a, 0x49, 0x06, 0x24, 0x5c, 0xc2, 0xd3, 0xac, 0x62, 0x91, 0x95, 0xe4, 0x79],
      [0xe7, 0xc8, 0x37, 0x6d, 0x8d, 0xd5, 0x4e, 0xa9, 0x6c, 0x56, 0xf4, 0xea, 0x65, 0x7a, 0xae, 0x08],
      [0xba, 0x78, 0x25, 0x2e, 0x1c, 0xa6, 0xb4, 0xc6, 0xe8, 0xdd, 0x74, 0x1f, 0x4b, 0xbd, 0x8b, 0x8a],
      [0x70, 0x3e, 0xb5, 0x66, 0x48, 0x03, 0xf6, 0x0e, 0x61, 0x35, 0x57, 0xb9, 0x86, 0xc1, 0x1d, 0x9e],
      [0xe1, 0xf8, 0x98, 0x11, 0x69, 0xd9, 0x8e, 0x94, 0x9b, 0x1e, 0x87, 0xe9, 0xce, 0x55, 0x28, 0xdf],
      [0x8c, 0xa1, 0x89, 0x0d, 0xbf, 0xe6, 0x42, 0x68, 0x41, 0x99, 0x2d, 0x0f, 0xb0, 0x54, 0xbb, 0x16]]"

definition SubByte :: "int \<Rightarrow> int" where
  "SubByte b = SBOX ! nat (b div 16) ! nat (b mod 16)"

text \<open>The multiplication by \<open>x\<close> in the field of 256 elements.\<close>

definition xtime :: "int \<Rightarrow> int" where
  "xtime b = (if 128 \<le> b then ((2 * b) mod 256) XOR 0x1b else 2 * b)"

definition xor_bytes :: "int list \<Rightarrow> int list \<Rightarrow> int list" where
  "xor_bytes xs ys = map (\<lambda>(x, y). x XOR y) (zip xs ys)"

definition SubBytes :: "int list \<Rightarrow> int list" where
  "SubBytes st = map SubByte st"

fun ShiftRows :: "int list \<Rightarrow> int list" where
  "ShiftRows [s0, s1, s2, s3, s4, s5, s6, s7, s8, s9, s10, s11, s12, s13, s14, s15] =
     [s0, s5, s10, s15, s4, s9, s14, s3, s8, s13, s2, s7, s12, s1, s6, s11]"
| "ShiftRows st = st"

fun MixColumns :: "int list \<Rightarrow> int list" where
  "MixColumns (a0 # a1 # a2 # a3 # rest) =
     [xtime a0 XOR (xtime a1 XOR a1) XOR a2 XOR a3,
      a0 XOR xtime a1 XOR (xtime a2 XOR a2) XOR a3,
      a0 XOR a1 XOR xtime a2 XOR (xtime a3 XOR a3),
      (xtime a0 XOR a0) XOR a1 XOR a2 XOR xtime a3] @ MixColumns rest"
| "MixColumns _ = []"

text \<open>
  The key expansion: the 8 words of the key, then 52 words more, each from the word
  before it and the word 8 places back.
\<close>

fun KeyExpansionLoop :: "nat \<Rightarrow> int \<Rightarrow> int list list \<Rightarrow> int list list" where
  "KeyExpansionLoop 0 rcon w = w"
| "KeyExpansionLoop (Suc n) rcon w =
     (let i = length w;
          temp = last w;
          temp' = (if i mod 8 = 0 then xor_bytes (map SubByte (rotate1 temp)) [rcon, 0, 0, 0]
                   else if i mod 8 = 4 then map SubByte temp
                   else temp)
      in KeyExpansionLoop n (if i mod 8 = 0 then xtime rcon else rcon)
           (w @ [xor_bytes (w ! (i - 8)) temp']))"

fun words :: "int list \<Rightarrow> int list list" where
  "words (a # b # c # d # rest) = [a, b, c, d] # words rest"
| "words _ = []"

fun roundKeys :: "int list list \<Rightarrow> int list list" where
  "roundKeys (a # b # c # d # rest) = (a @ b @ c @ d) # roundKeys rest"
| "roundKeys _ = []"

definition KeyExpansion :: "int list \<Rightarrow> int list list" where
  "KeyExpansion key = roundKeys (KeyExpansionLoop 52 1 (words key))"

fun Rounds :: "int list \<Rightarrow> int list list \<Rightarrow> int list" where
  "Rounds st [] = st"
| "Rounds st [rk] = xor_bytes (ShiftRows (SubBytes st)) rk"
| "Rounds st (rk # rks) = Rounds (xor_bytes (MixColumns (ShiftRows (SubBytes st))) rk) rks"

text \<open>The cipher on one block, given the round keys.\<close>

definition Cipher :: "int list list \<Rightarrow> int list \<Rightarrow> int list" where
  "Cipher w block = Rounds (xor_bytes block (hd w)) (tl w)"

subsection \<open>GCM\<close>

text \<open>
  The mode of NIST SP 800-38D, with no additional authenticated data. A counter block is
  the integer of its 16 bytes; for the hash a block is the list of its 128 bits, the
  leftmost first.
\<close>

definition block_of :: "int list \<Rightarrow> int" where
  "block_of bs = foldl (\<lambda>acc b. 256 * acc + b) 0 bs"

fun bytes_of :: "nat \<Rightarrow> int \<Rightarrow> int list" where
  "bytes_of 0 x = []"
| "bytes_of (Suc n) x = bytes_of n (x div 256) @ [x mod 256]"

fun bits_of :: "nat \<Rightarrow> int \<Rightarrow> bool list" where
  "bits_of 0 x = []"
| "bits_of (Suc n) x = bits_of n (x div 2) @ [x mod 2 = 1]"

definition int_of_bits :: "bool list \<Rightarrow> int" where
  "int_of_bits bs = foldl (\<lambda>acc b. 2 * acc + (if b then 1 else 0)) 0 bs"

definition block_bits :: "int list \<Rightarrow> bool list" where
  "block_bits bs = concat (map (bits_of 8) bs)"

fun bits_bytes :: "bool list \<Rightarrow> int list" where
  "bits_bytes (b0 # b1 # b2 # b3 # b4 # b5 # b6 # b7 # rest) =
     int_of_bits [b0, b1, b2, b3, b4, b5, b6, b7] # bits_bytes rest"
| "bits_bytes _ = []"

definition xor_bits :: "bool list \<Rightarrow> bool list \<Rightarrow> bool list" where
  "xor_bits xs ys = map (\<lambda>(x, y). x \<noteq> y) (zip xs ys)"

text \<open>
  The multiplication of two blocks: for each bit of \<open>x\<close> from the left, \<open>v\<close> is added to
  the product when the bit is set, and \<open>v\<close> is shifted to the right, with the constant
  \<open>R = 11100001 || 0^120\<close> added when a bit falls off.
\<close>

definition R_bits :: "bool list" where
  "R_bits = [True, True, True, False, False, False, False, True] @ replicate 120 False"

fun gf_mult_loop :: "bool list \<Rightarrow> bool list \<Rightarrow> bool list \<Rightarrow> bool list" where
  "gf_mult_loop [] z v = z"
| "gf_mult_loop (xi # x) z v =
     gf_mult_loop x (if xi then xor_bits z v else z)
       (if last v then xor_bits (False # butlast v) R_bits else False # butlast v)"

definition gf_mult :: "bool list \<Rightarrow> bool list \<Rightarrow> bool list" where
  "gf_mult x y = gf_mult_loop x (replicate 128 False) y"

definition GHASH :: "bool list \<Rightarrow> int list list \<Rightarrow> bool list" where
  "GHASH h bs = foldl (\<lambda>y x. gf_mult (xor_bits y (block_bits x)) h) (replicate 128 False) bs"

text \<open>The blocks of a byte string, the last one filled up with zero bytes.\<close>

function blocks :: "int list \<Rightarrow> int list list" where
  "blocks bs = (if bs = [] then [] else take 16 (bs @ replicate 15 0) # blocks (drop 16 bs))"
  by pat_completeness auto
termination
  by (relation "measure length") auto

declare blocks.simps [simp del]

definition inc32 :: "int \<Rightarrow> int" where
  "inc32 cb = (cb div 0x100000000) * 0x100000000 + (cb mod 0x100000000 + 1) mod 0x100000000"

function GCTR :: "int list list \<Rightarrow> int \<Rightarrow> int list \<Rightarrow> int list" where
  "GCTR w cb xs =
     (if xs = [] then []
      else xor_bytes (take 16 xs) (Cipher w (bytes_of 16 cb)) @ GCTR w (inc32 cb) (drop 16 xs))"
  by pat_completeness auto
termination
  by (relation "measure (\<lambda>(w, cb, xs). length xs)") auto

declare GCTR.simps [simp del]

text \<open>
  The first counter block: an IV of 12 bytes is followed by the counter 1, an IV of
  another length is hashed together with its length in bits.
\<close>

definition J0_of :: "bool list \<Rightarrow> int list \<Rightarrow> int" where
  "J0_of h iv =
     (if length iv = 12 then block_of iv * 0x100000000 + 1
      else int_of_bits (GHASH h (blocks iv @ [bytes_of 16 (8 * int (length iv))])))"

text \<open>
  The tag of a ciphertext and the text of a ciphertext, given the round keys, the hash
  key and the first counter block.
\<close>

definition gcm_tag :: "int list list \<Rightarrow> bool list \<Rightarrow> int \<Rightarrow> int list \<Rightarrow> int list" where
  "gcm_tag w h j0 c =
     xor_bytes (bits_bytes (GHASH h (blocks c @ [bytes_of 16 (8 * int (length c))])))
       (Cipher w (bytes_of 16 j0))"

definition gcm_text :: "int list list \<Rightarrow> int \<Rightarrow> int list \<Rightarrow> int list" where
  "gcm_text w j0 c = GCTR w (inc32 j0) c"

subsection \<open>The decipher\<close>

text \<open>
  The object \<open>createDecipheriv\<close> returns, for the calls \<open>decrypt\<close> makes on it, in their
  order: the round keys, the hash key \<open>E(K, 0^128)\<close> and the first counter block are
  computed at creation; \<open>update\<close> returns the text of what it is given at once, before
  the tag is verified; \<open>final\<close> verifies the tag over all that was given.

  The checks are those of Node on OpenSSL 3: an IV that is empty or longer than 128
  bytes is refused, an IV of any other length is accepted; the tag passed to \<open>setAuthTag\<close>
  must have the length \<open>authTagLength\<close> given at creation; \<open>final\<close> throws when no tag
  was set or the tag does not verify.
\<close>

record Decipher =
  roundKeys_d :: "int list list"
  hashKey_d :: "bool list"
  J0_d :: int
  authTagLength_d :: nat
  authTag_d :: "Buffer option"
  input_d :: "int list"

function decimal :: "nat \<Rightarrow> string" where
  "decimal n = (if n < 10 then [char_of (48 + n)] else decimal (n div 10) @ [char_of (48 + n mod 10)])"
  by pat_completeness auto
termination
  by (relation "measure id") auto

declare decimal.simps [simp del]

definition isValidGCMTagLength :: "nat \<Rightarrow> bool" where
  "isValidGCMTagLength n \<longleftrightarrow> n = 4 \<or> n = 8 \<or> (12 \<le> n \<and> n \<le> 16)"

definition decipherWith :: "int list list \<Rightarrow> bool list \<Rightarrow> Buffer \<Rightarrow> nat \<Rightarrow> Decipher" where
  "decipherWith w h iv authTagLength =
     \<lparr>roundKeys_d = w, hashKey_d = h, J0_d = J0_of h (map uint iv),
      authTagLength_d = authTagLength, authTag_d = None, input_d = []\<rparr>"

definition newDecipher :: "Buffer \<Rightarrow> Buffer \<Rightarrow> nat \<Rightarrow> Decipher" where
  "newDecipher key iv authTagLength =
     decipherWith (KeyExpansion (map uint key))
       (block_bits (Cipher (KeyExpansion (map uint key)) (replicate 16 0))) iv authTagLength"

definition createDecipheriv :: "string \<Rightarrow> Buffer \<Rightarrow> Buffer \<Rightarrow> nat \<Rightarrow> thrown + Decipher" where
  "createDecipheriv algorithm key iv authTagLength =
     (if algorithm \<noteq> ''aes-256-gcm'' then Inl (Error ''Unknown cipher'')
      else if iv = [] \<or> 128 < length iv then Inl (TypeError ''Invalid initialization vector'')
      else if \<not> isValidGCMTagLength authTagLength
        then Inl (TypeError (''Invalid authentication tag length: '' @ decimal authTagLength))
      else if length key \<noteq> 32 then Inl (RangeError ''Invalid key length'')
      else Inr (newDecipher key iv authTagLength))"

definition setAuthTag :: "Decipher \<Rightarrow> Buffer \<Rightarrow> thrown + Decipher" where
  "setAuthTag d tag =
     (if length tag \<noteq> authTagLength_d d \<or> \<not> isValidGCMTagLength (length tag)
      then Inl (TypeError (''Invalid authentication tag length: '' @ decimal (length tag)))
      else Inr (d\<lparr>authTag_d := Some tag\<rparr>))"

definition update :: "Decipher \<Rightarrow> Buffer \<Rightarrow> thrown + Buffer \<times> Decipher" where
  "update d chunk =
     Inr (map of_int
            (drop (length (input_d d))
               (gcm_text (roundKeys_d d) (J0_d d) (input_d d @ map uint chunk))),
          d\<lparr>input_d := input_d d @ map uint chunk\<rparr>)"

definition final :: "Decipher \<Rightarrow> thrown + Buffer" where
  "final d =
     (case authTag_d d of
        None \<Rightarrow> Inl (Error ''Unsupported state or unable to authenticate data'')
      | Some tag \<Rightarrow>
          if map uint tag = gcm_tag (roundKeys_d d) (hashKey_d d) (J0_d d) (input_d d)
          then Inr []
          else Inl (Error ''Unsupported state or unable to authenticate data''))"

subsection \<open>The source\<close>

definition ALGORITHM :: string where
  "ALGORITHM = ''aes-256-gcm''"

text \<open>\<open>IV_LENGTH\<close> is used by \<open>encrypt\<close> alone; \<open>decrypt\<close> does not read it.\<close>

definition IV_LENGTH :: nat where
  "IV_LENGTH = 12"

definition TAG_LENGTH :: nat where
  "TAG_LENGTH = 16"

text \<open>\<open>ENCRYPTION_KEY\<close> is the environment variable, \<open>None\<close> when it is not set.\<close>

definition getKey :: "string option \<Rightarrow> thrown + Buffer" where
  "getKey ENCRYPTION_KEY =
     (case ENCRYPTION_KEY of
        None \<Rightarrow> Inl (Error ''ENCRYPTION_KEY environment variable is required'')
      | Some key \<Rightarrow>
          if key = [] then Inl (Error ''ENCRYPTION_KEY environment variable is required'')
          else
            let buf = base64_decode key
            in if length buf \<noteq> 32
               then Inl (Error ''ENCRYPTION_KEY must be exactly 32 bytes (base64-encoded)'')
               else Inr buf)"

text \<open>
  \<open>toString_utf8\<close> is the decoder of \<open>decrypted.toString('utf8')\<close>, whatever the type \<open>'s\<close> of
  the strings it gives.
\<close>

definition decrypt :: "(Buffer \<Rightarrow> 's) \<Rightarrow> string option \<Rightarrow> string \<Rightarrow> thrown + 's" where
  "decrypt toString_utf8 ENCRYPTION_KEY encrypted =
     (case getKey ENCRYPTION_KEY of
        Inl e \<Rightarrow> Inl e
      | Inr key \<Rightarrow>
          let parts = split_on (CHR '':'') encrypted
          in if length parts \<noteq> 3
             then Inl (Error ''Invalid encrypted format (expected iv:tag:ciphertext)'')
             else
               let iv = base64_decode (parts ! 0);
                   tag = base64_decode (parts ! 1);
                   ciphertext = base64_decode (parts ! 2)
               in (case createDecipheriv ALGORITHM key iv TAG_LENGTH of
                     Inl e \<Rightarrow> Inl e
                   | Inr decipher \<Rightarrow>
                       (case setAuthTag decipher tag of
                          Inl e \<Rightarrow> Inl e
                        | Inr decipher1 \<Rightarrow>
                            (case update decipher1 ciphertext of
                               Inl e \<Rightarrow> Inl e
                             | Inr (decrypted, decipher2) \<Rightarrow>
                                 (case final decipher2 of
                                    Inl e \<Rightarrow> Inl e
                                  | Inr rest \<Rightarrow> Inr (toString_utf8 (decrypted @ rest)))))))"

text \<open>
  What the properties of \<open>decrypt\<close> speak of: the decoded field \<open>i\<close> of the input, and the
  tag (as integers from 0 to 255) and the text that AES-256-GCM gives for a key, an IV
  and a ciphertext.
\<close>

definition encryptedField :: "string \<Rightarrow> nat \<Rightarrow> Buffer" where
  "encryptedField encrypted i = base64_decode (split_on (CHR '':'') encrypted ! i)"

definition AES_256_GCM_tag :: "Buffer \<Rightarrow> Buffer \<Rightarrow> Buffer \<Rightarrow> int list" where
  "AES_256_GCM_tag key iv ciphertext =
     gcm_tag (roundKeys_d (newDecipher key iv 16)) (hashKey_d (newDecipher key iv 16))
       (J0_d (newDecipher key iv 16)) (map uint ciphertext)"

definition AES_256_GCM_text :: "Buffer \<Rightarrow> Buffer \<Rightarrow> Buffer \<Rightarrow> Buffer" where
  "AES_256_GCM_text key iv ciphertext =
     map of_int (gcm_text (roundKeys_d (newDecipher key iv 16)) (J0_d (newDecipher key iv 16))
                   (map uint ciphertext))"

text \<open>The key of the examples: the bytes 0 to 31.\<close>

definition example_key :: string where
  "example_key = ''AAECAwQFBgcICQoLDA0ODxAREhMUFRYXGBkaGxwdHh8=''"

section \<open>Properties of the quality gates\<close>

lemma foldl_charCount: "foldl (\<lambda>sum p. sum + charCount p) a pages = a + sum_list (map charCount pages)"
  by (induction pages arbitrary: a) simp_all

lemma spec_issueCount_cases:
  "spec_issueCount pages =
     (if spec_rule3 pages then 1 else 0) + (if spec_rule4 pages then 1 else 0)
       + (if spec_rule5 pages then 1 else 0)"
  by (simp add: spec_issueCount_def)

text \<open>
  Claim C1. For every list of normalized pages the gate applies its rules in order: it
  fails with \<open>extraction_empty\<close> exactly when the total character count is 0; otherwise
  with \<open>needs_ocr\<close> exactly when there is more than one page, fewer than 100 characters
  in total and a ratio of pages with more than 10 characters below 0.3; otherwise with
  \<open>extraction_low_quality\<close> exactly when at least two of the rules 3 to 5 raise an
  issue; and otherwise it passes.
\<close>

theorem checkExtractionQuality_spec:
  "errorCode (checkExtractionQuality pages) = spec_gate pages \<and>
   passed (checkExtractionQuality pages) = (spec_gate pages = None)"
  by (simp add: checkExtractionQuality_def foldl_charCount Let_def spec_gate_def
      spec_issueCount_cases spec_rule3_def spec_rule4_def spec_rule5_def
      spec_totalChars_def spec_nonEmptyRatio_def spec_avgCharsPerPage_def mult.commute)

section \<open>Properties of the error classifier\<close>

lemma includes_str_occurs_in: "includes_str s needle = occurs_in needle s"
proof (induction s)
  case Nil
  show ?case by (auto simp: occurs_in_def)
next
  case (Cons c cs)
  have "occurs_in needle (c # cs) \<longleftrightarrow> prefix needle (c # cs) \<or> occurs_in needle cs"
  proof
    assume "occurs_in needle (c # cs)"
    then obtain b a where ba: "c # cs = b @ needle @ a" by (auto simp: occurs_in_def)
    show "prefix needle (c # cs) \<or> occurs_in needle cs"
    proof (cases b)
      case Nil
      with ba show ?thesis by (auto simp: prefix_def)
    next
      case (Cons b0 b')
      with ba have "cs = b' @ needle @ a" by simp
      then show ?thesis by (auto simp: occurs_in_def)
    qed
  next
    assume "prefix needle (c # cs) \<or> occurs_in needle cs"
    then show "occurs_in needle (c # cs)"
    proof
      assume "prefix needle (c # cs)"
      then obtain a where "c # cs = needle @ a" by (auto simp: prefix_def)
      then have "c # cs = [] @ needle @ a" by simp
      then show ?thesis unfolding occurs_in_def by blast
    next
      assume "occurs_in needle cs"
      then obtain b a where "cs = b @ needle @ a" by (auto simp: occurs_in_def)
      then have "c # cs = (c # b) @ needle @ a" by simp
      then show ?thesis unfolding occurs_in_def by blast
    qed
  qed
  with Cons show ?case by simp
qed

text \<open>
  Claim C2. The classifier is total and ordered: every error text gets exactly one code,
  the code of the first row of the specification's table one of whose substrings occurs
  in the lowercased text, and \<open>parse_failed\<close> when no row matches.
\<close>

theorem classifyError_spec: "classifyError error = spec_classify error"
  by (simp add: classifyError_def spec_classify_def spec_rules_def Let_def includes_str_occurs_in)

section \<open>Properties of the chunker\<close>

subsection \<open>Pages without text\<close>

lemma addPage_blank: "trim (content page) = [] \<Longrightarrow> addPage maxSize minSize overlap st page = st"
  by (simp add: addPage_def)

lemma addPages_filter:
  "foldl (addPage maxSize minSize overlap) st (filter (\<lambda>page. trim (content page) \<noteq> []) pages)
     = foldl (addPage maxSize minSize overlap) st pages"
  by (induction pages arbitrary: st) (simp_all add: addPage_blank)

lemma chunker_skips_blank_pages:
  "chunkPagesWithProvenance (filter (\<lambda>page. trim (content page) \<noteq> []) pages) options
     = chunkPagesWithProvenance pages options"
  by (simp add: chunkPagesWithProvenance_def addPages_filter)

subsection \<open>Provenance\<close>

lemma provenance_ok_snoc:
  assumes "provenance_ok cs" and "chunkIndex c = length cs" and "pageStart c \<le> pageEnd c"
    and "\<forall>d\<in>set cs. pageStart d \<le> pageStart c \<and> pageEnd d \<le> pageEnd c"
  shows "provenance_ok (cs @ [c])"
  using assms by (auto simp: provenance_ok_def sorted_append)

lemma chunker_inv_mono: "chunker_inv b st \<Longrightarrow> b \<le> b' \<Longrightarrow> chunker_inv b' st"
  by (auto simp: chunker_inv_def)

lemma addSentence_inv:
  assumes inv: "chunker_inv b st" and le: "b \<le> p"
  shows "chunker_inv p (addSentence maxSize minSize overlap p st sentence)"
proof -
  let ?c = "createChunk (currentChunkSentences st) (chunkIndex_next st)
              (currentPageStart st) (currentPageEnd st)"
  have snoc: "provenance_ok (chunks st @ [?c])"
    using inv by (intro provenance_ok_snoc) (auto simp: chunker_inv_def createChunk_def)
  have start_le: "currentPageStart st \<le> p" and end_le: "currentPageEnd st \<le> p"
    using inv le by (auto simp: chunker_inv_def)
  show ?thesis
    using inv le snoc start_le end_le
    by (auto simp: addSentence_def Let_def chunker_inv_def createChunk_def)
qed

lemma addSentences_inv:
  "chunker_inv b st \<Longrightarrow> b \<le> p \<Longrightarrow>
   chunker_inv p (foldl (addSentence maxSize minSize overlap p) st sents)"
proof (induction sents arbitrary: st b)
  case Nil
  then show ?case by (simp add: chunker_inv_mono)
next
  case (Cons s sents)
  have "chunker_inv p (addSentence maxSize minSize overlap p st s)"
    using Cons.prems by (rule addSentence_inv)
  then show ?case using Cons.IH [of p] by simp
qed

lemma addPage_inv:
  "chunker_inv b st \<Longrightarrow> b \<le> pageNumber page \<Longrightarrow>
   chunker_inv (pageNumber page) (addPage maxSize minSize overlap st page)"
  by (simp add: addPage_def Let_def addSentences_inv chunker_inv_mono)

lemma addPages_inv:
  "chunker_inv b st \<Longrightarrow> sorted (map pageNumber pages) \<Longrightarrow>
   \<forall>page\<in>set pages. b \<le> pageNumber page \<Longrightarrow>
   \<exists>b'. chunker_inv b' (foldl (addPage maxSize minSize overlap) st pages)"
proof (induction pages arbitrary: st b)
  case Nil
  then show ?case by auto
next
  case (Cons page pages)
  have "chunker_inv (pageNumber page) (addPage maxSize minSize overlap st page)"
    using Cons.prems by (intro addPage_inv) auto
  moreover have "sorted (map pageNumber pages)" "\<forall>q\<in>set pages. pageNumber page \<le> pageNumber q"
    using Cons.prems by auto
  ultimately show ?case using Cons.IH by simp
qed

lemma chunk_page_bounds:
  assumes "sorted (map pageNumber pages)" and "\<forall>page\<in>set pages. 1 \<le> pageNumber page"
  shows "provenance_ok (chunkPagesWithProvenance pages options)"
proof -
  define maxSize where "maxSize = (case maxChunkSize options of None \<Rightarrow> 1000 | Some v \<Rightarrow> v)"
  define minSize where "minSize = (case minChunkSize options of None \<Rightarrow> 200 | Some v \<Rightarrow> v)"
  define overlap where "overlap = (case overlapSize options of None \<Rightarrow> 100 | Some v \<Rightarrow> v)"
  define start where "start = \<lparr>chunks = [], currentChunkSentences = [], currentChunkSize = 0,
                   currentPageStart = 1, currentPageEnd = 1, chunkIndex_next = 0\<rparr>"
  define st where "st = foldl (addPage maxSize minSize overlap) start pages"
  have "chunker_inv 1 start"
    by (simp add: chunker_inv_def provenance_ok_def start_def)
  then obtain b where inv: "chunker_inv b st"
    using addPages_inv assms unfolding st_def by blast
  let ?c = "createChunk (currentChunkSentences st) (chunkIndex_next st)
              (currentPageStart st) (currentPageEnd st)"
  have "provenance_ok (chunks st)" using inv by (simp add: chunker_inv_def)
  moreover have "provenance_ok (chunks st @ [?c])"
    using inv by (intro provenance_ok_snoc) (auto simp: chunker_inv_def createChunk_def)
  moreover have "chunkPagesWithProvenance pages options =
      (if length (currentChunkSentences st) > 0 then
         if int (length (content_chunk ?c)) \<ge> minSize then chunks st @ [?c] else chunks st
       else chunks st)"
    by (simp add: chunkPagesWithProvenance_def Let_def st_def start_def maxSize_def minSize_def overlap_def)
  ultimately show ?thesis by simp
qed

lemma addSentence_index_inv:
  "index_inv st \<Longrightarrow> index_inv (addSentence maxSize minSize overlap p st sentence)"
  by (auto simp: addSentence_def Let_def index_inv_def createChunk_def)

lemma addSentences_index_inv:
  "index_inv st \<Longrightarrow> index_inv (foldl (addSentence maxSize minSize overlap p) st sents)"
  by (induction sents arbitrary: st) (simp_all add: addSentence_index_inv)

lemma addPage_index_inv:
  "index_inv st \<Longrightarrow> index_inv (addPage maxSize minSize overlap st page)"
  by (simp add: addPage_def Let_def addSentences_index_inv)

lemma addPages_index_inv:
  "index_inv st \<Longrightarrow> index_inv (foldl (addPage maxSize minSize overlap) st pages)"
  by (induction pages arbitrary: st) (simp_all add: addPage_index_inv)

text \<open>The indices are \<open>0..k-1\<close> for every page list, whatever its page numbers.\<close>

lemma chunk_indices:
  "map chunkIndex (chunkPagesWithProvenance pages options)
     = [0..<length (chunkPagesWithProvenance pages options)]"
proof -
  define maxSize where "maxSize = (case maxChunkSize options of None \<Rightarrow> 1000 | Some v \<Rightarrow> v)"
  define minSize where "minSize = (case minChunkSize options of None \<Rightarrow> 200 | Some v \<Rightarrow> v)"
  define overlap where "overlap = (case overlapSize options of None \<Rightarrow> 100 | Some v \<Rightarrow> v)"
  define start where "start = \<lparr>chunks = [], currentChunkSentences = [], currentChunkSize = 0,
                   currentPageStart = 1, currentPageEnd = 1, chunkIndex_next = 0\<rparr>"
  define st where "st = foldl (addPage maxSize minSize overlap) start pages"
  have "index_inv start" by (simp add: index_inv_def start_def)
  then have inv: "index_inv st" unfolding st_def by (rule addPages_index_inv)
  let ?c = "createChunk (currentChunkSentences st) (chunkIndex_next st)
              (currentPageStart st) (currentPageEnd st)"
  have result: "chunkPagesWithProvenance pages options =
      (if length (currentChunkSentences st) > 0 then
         if int (length (content_chunk ?c)) \<ge> minSize then chunks st @ [?c] else chunks st
       else chunks st)"
    by (simp add: chunkPagesWithProvenance_def Let_def st_def start_def maxSize_def minSize_def overlap_def)
  show ?thesis
    unfolding result using inv by (simp add: index_inv_def createChunk_def)
qed

lemma pageEnd_inv_mono: "pageEnd_inv b st \<Longrightarrow> b \<le> b' \<Longrightarrow> pageEnd_inv b' st"
  by (auto simp: pageEnd_inv_def)

lemma addSentence_pageEnd_inv:
  assumes "pageEnd_inv b st" and "b \<le> p"
  shows "pageEnd_inv p (addSentence maxSize minSize overlap p st sentence)"
  using assms
  by (auto simp: addSentence_def Let_def pageEnd_inv_def createChunk_def sorted_append)

lemma addSentences_pageEnd_inv:
  "pageEnd_inv b st \<Longrightarrow> b \<le> p \<Longrightarrow>
   pageEnd_inv p (foldl (addSentence maxSize minSize overlap p) st sents)"
proof (induction sents arbitrary: st b)
  case Nil
  then show ?case by (simp add: pageEnd_inv_mono)
next
  case (Cons s sents)
  have "pageEnd_inv p (addSentence maxSize minSize overlap p st s)"
    using Cons.prems by (rule addSentence_pageEnd_inv)
  then show ?case using Cons.IH [of p] by simp
qed

lemma addPage_pageEnd_inv:
  "pageEnd_inv b st \<Longrightarrow> b \<le> pageNumber page \<Longrightarrow>
   pageEnd_inv (pageNumber page) (addPage maxSize minSize overlap st page)"
  by (simp add: addPage_def Let_def addSentences_pageEnd_inv pageEnd_inv_mono)

lemma addPages_pageEnd_inv:
  "pageEnd_inv b st \<Longrightarrow> sorted (map pageNumber pages) \<Longrightarrow>
   \<forall>page\<in>set pages. b \<le> pageNumber page \<Longrightarrow>
   \<exists>b'. pageEnd_inv b' (foldl (addPage maxSize minSize overlap) st pages)"
proof (induction pages arbitrary: st b)
  case Nil
  then show ?case by auto
next
  case (Cons page pages)
  have "pageEnd_inv (pageNumber page) (addPage maxSize minSize overlap st page)"
    using Cons.prems by (intro addPage_pageEnd_inv) auto
  moreover have "sorted (map pageNumber pages)" "\<forall>q\<in>set pages. pageNumber page \<le> pageNumber q"
    using Cons.prems by auto
  ultimately show ?case using Cons.IH by simp
qed

text \<open>
  \<open>pageEnd\<close> is non-decreasing as soon as the page numbers are, also when they start
  below 1.
\<close>

lemma chunk_pageEnd_sorted:
  assumes "sorted (map pageNumber pages)"
  shows "sorted (map pageEnd (chunkPagesWithProvenance pages options))"
proof -
  define maxSize where "maxSize = (case maxChunkSize options of None \<Rightarrow> 1000 | Some v \<Rightarrow> v)"
  define minSize where "minSize = (case minChunkSize options of None \<Rightarrow> 200 | Some v \<Rightarrow> v)"
  define overlap where "overlap = (case overlapSize options of None \<Rightarrow> 100 | Some v \<Rightarrow> v)"
  define start where "start = \<lparr>chunks = [], currentChunkSentences = [], currentChunkSize = 0,
                   currentPageStart = 1, currentPageEnd = 1, chunkIndex_next = 0\<rparr>"
  define st where "st = foldl (addPage maxSize minSize overlap) start pages"
  define low where "low = (if pages = [] then 0 else pageNumber (hd pages))"
  have "pageEnd_inv low start" by (simp add: pageEnd_inv_def start_def)
  moreover have "\<forall>page\<in>set pages. low \<le> pageNumber page"
    using assms by (cases pages) (auto simp: low_def)
  ultimately obtain b where inv: "pageEnd_inv b st"
    using addPages_pageEnd_inv assms unfolding st_def by blast
  let ?c = "createChunk (currentChunkSentences st) (chunkIndex_next st)
              (currentPageStart st) (currentPageEnd st)"
  have result: "chunkPagesWithProvenance pages options =
      (if length (currentChunkSentences st) > 0 then
         if int (length (content_chunk ?c)) \<ge> minSize then chunks st @ [?c] else chunks st
       else chunks st)"
    by (simp add: chunkPagesWithProvenance_def Let_def st_def start_def maxSize_def minSize_def overlap_def)
  show ?thesis
    unfolding result using inv by (auto simp: pageEnd_inv_def createChunk_def sorted_append)
qed

text \<open>
  Claim C3, as amended. For every page list and every chunking configuration the chunk
  list returned has the indices \<open>0..k-1\<close> with no gaps. If the page numbers of the pages
  that have text are non-decreasing, \<open>pageEnd\<close> is non-decreasing along the chunk list. If
  moreover these page numbers are at least 1, every chunk has \<open>pageStart \<le> pageEnd\<close> and
  \<open>pageStart\<close> is non-decreasing along the chunk list.
\<close>

theorem chunk_provenance:
  "map chunkIndex (chunkPagesWithProvenance pages options)
     = [0..<length (chunkPagesWithProvenance pages options)] \<and>
   (sorted (map pageNumber (textPages pages)) \<longrightarrow>
      sorted (map pageEnd (chunkPagesWithProvenance pages options))) \<and>
   (sorted (map pageNumber (textPages pages)) \<and> (\<forall>page\<in>set (textPages pages). 1 \<le> pageNumber page) \<longrightarrow>
      (\<forall>c\<in>set (chunkPagesWithProvenance pages options). pageStart c \<le> pageEnd c) \<and>
      sorted (map pageStart (chunkPagesWithProvenance pages options)))"
proof -
  have same: "chunkPagesWithProvenance (textPages pages) options = chunkPagesWithProvenance pages options"
    unfolding textPages_def by (rule chunker_skips_blank_pages)
  show ?thesis
    using chunk_indices [of pages options] chunk_pageEnd_sorted [of "textPages pages" options]
      chunk_page_bounds [of "textPages pages" options]
    unfolding same by (simp add: provenance_ok_def)
qed

text \<open>
  The theorem at a document of three pages, the second blank and out of order, that is
  cut into three chunks: the page numbers 1, 2 of the pages with text are in order and at
  least 1, and the chunks carry the indices 0, 1, 2 and the page ranges 1-1, 1-2, 2-2.
\<close>

theorem chunk_provenance_witness:
  "map pageNumber
     (textPages
        [\<lparr>pageNumber = 1, content = ''One two. Three four. Five six. Seven''\<rparr>,
         \<lparr>pageNumber = 0, content = '' ''\<rparr>,
         \<lparr>pageNumber = 2, content = ''Hello. World is big.''\<rparr>]) = [1, 2] \<and>
   map (\<lambda>c. (chunkIndex c, pageStart c, pageEnd c))
     (chunkPagesWithProvenance
        [\<lparr>pageNumber = 1, content = ''One two. Three four. Five six. Seven''\<rparr>,
         \<lparr>pageNumber = 0, content = '' ''\<rparr>,
         \<lparr>pageNumber = 2, content = ''Hello. World is big.''\<rparr>]
        \<lparr>maxChunkSize = Some 20, minChunkSize = Some 5, overlapSize = Some 10\<rparr>)
     = [(0, 1, 1), (1, 1, 2), (2, 2, 2)] \<and>
   map chunkIndex
     (chunkPagesWithProvenance
        [\<lparr>pageNumber = 1, content = ''One two. Three four. Five six. Seven''\<rparr>,
         \<lparr>pageNumber = 0, content = '' ''\<rparr>,
         \<lparr>pageNumber = 2, content = ''Hello. World is big.''\<rparr>]
        \<lparr>maxChunkSize = Some 20, minChunkSize = Some 5, overlapSize = Some 10\<rparr>)
     = [0..<length
     (chunkPagesWithProvenance
        [\<lparr>pageNumber = 1, content = ''One two. Three four. Five six. Seven''\<rparr>,
         \<lparr>pageNumber = 0, content = '' ''\<rparr>,
         \<lparr>pageNumber = 2, content = ''Hello. World is big.''\<rparr>]
        \<lparr>maxChunkSize = Some 20, minChunkSize = Some 5, overlapSize = Some 10\<rparr>)] \<and>
   sorted (map pageEnd
     (chunkPagesWithProvenance
        [\<lparr>pageNumber = 1, content = ''One two. Three four. Five six. Seven''\<rparr>,
         \<lparr>pageNumber = 0, content = '' ''\<rparr>,
         \<lparr>pageNumber = 2, content = ''Hello. World is big.''\<rparr>]
        \<lparr>maxChunkSize = Some 20, minChunkSize = Some 5, overlapSize = Some 10\<rparr>)) \<and>
   list_all (\<lambda>c. pageStart c \<le> pageEnd c)
     (chunkPagesWithProvenance
        [\<lparr>pageNumber = 1, content = ''One two. Three four. Five six. Seven''\<rparr>,
         \<lparr>pageNumber = 0, content = '' ''\<rparr>,
         \<lparr>pageNumber = 2, content = ''Hello. World is big.''\<rparr>]
        \<lparr>maxChunkSize = Some 20, minChunkSize = Some 5, overlapSize = Some 10\<rparr>) \<and>
   sorted (map pageStart
     (chunkPagesWithProvenance
        [\<lparr>pageNumber = 1, content = ''One two. Three four. Five six. Seven''\<rparr>,
         \<lparr>pageNumber = 0, content = '' ''\<rparr>,
         \<lparr>pageNumber = 2, content = ''Hello. World is big.''\<rparr>]
        \<lparr>maxChunkSize = Some 20, minChunkSize = Some 5, overlapSize = Some 10\<rparr>))"
proof -
  have texted: "textPages
        [\<lparr>pageNumber = 1, content = ''One two. Three four. Five six. Seven''\<rparr>,
         \<lparr>pageNumber = 0, content = '' ''\<rparr>,
         \<lparr>pageNumber = 2, content = ''Hello. World is big.''\<rparr>]
      = [\<lparr>pageNumber = 1, content = ''One two. Three four. Five six. Seven''\<rparr>,
         \<lparr>pageNumber = 2, content = ''Hello. World is big.''\<rparr>]"
    by code_simp
  have run: "map (\<lambda>c. (chunkIndex c, pageStart c, pageEnd c))
     (chunkPagesWithProvenance
        [\<lparr>pageNumber = 1, content = ''One two. Three four. Five six. Seven''\<rparr>,
         \<lparr>pageNumber = 0, content = '' ''\<rparr>,
         \<lparr>pageNumber = 2, content = ''Hello. World is big.''\<rparr>]
        \<lparr>maxChunkSize = Some 20, minChunkSize = Some 5, overlapSize = Some 10\<rparr>)
     = [(0, 1, 1), (1, 1, 2), (2, 2, 2)]"
    by code_simp
  show ?thesis
    using run
      chunk_provenance [of
        "[\<lparr>pageNumber = 1, content = ''One two. Three four. Five six. Seven''\<rparr>,
          \<lparr>pageNumber = 0, content = '' ''\<rparr>,
          \<lparr>pageNumber = 2, content = ''Hello. World is big.''\<rparr>]"
        "\<lparr>maxChunkSize = Some 20, minChunkSize = Some 5, overlapSize = Some 10\<rparr>"]
    unfolding texted by (simp add: list_all_iff)
qed

text \<open>
  The claim as stated, for every page list, fails on a list whose page numbers go down:
  the second chunk ends on page 1, after the first ended on page 2. It also fails on page
  numbers below 1, whatever their order, since the first chunk starts on the constant 1:
  on two pages numbered 0 the first chunk runs from page 1 to page 0, and the second
  starts on page 0, before the first.
\<close>

theorem chunk_provenance_counterexample:
  "map pageEnd
     (chunkPagesWithProvenance
        [\<lparr>pageNumber = 2, content = ''Second page.''\<rparr>,
         \<lparr>pageNumber = 1, content = ''First page.''\<rparr>]
        \<lparr>maxChunkSize = Some 10, minChunkSize = Some 1, overlapSize = Some 0\<rparr>) = [2, 1] \<and>
   \<not> sorted (map pageEnd
     (chunkPagesWithProvenance
        [\<lparr>pageNumber = 2, content = ''Second page.''\<rparr>,
         \<lparr>pageNumber = 1, content = ''First page.''\<rparr>]
        \<lparr>maxChunkSize = Some 10, minChunkSize = Some 1, overlapSize = Some 0\<rparr>)) \<and>
   map (\<lambda>c. (pageStart c, pageEnd c))
     (chunkPagesWithProvenance
        [\<lparr>pageNumber = 0, content = ''Second page.''\<rparr>,
         \<lparr>pageNumber = 0, content = ''First page.''\<rparr>]
        \<lparr>maxChunkSize = Some 10, minChunkSize = Some 1, overlapSize = Some 0\<rparr>)
     = [(1, 0), (0, 0)] \<and>
   \<not> sorted (map pageStart
     (chunkPagesWithProvenance
        [\<lparr>pageNumber = 0, content = ''Second page.''\<rparr>,
         \<lparr>pageNumber = 0, content = ''First page.''\<rparr>]
        \<lparr>maxChunkSize = Some 10, minChunkSize = Some 1, overlapSize = Some 0\<rparr>))"
proof -
  have ends: "map pageEnd
     (chunkPagesWithProvenance
        [\<lparr>pageNumber = 2, content = ''Second page.''\<rparr>,
         \<lparr>pageNumber = 1, content = ''First page.''\<rparr>]
        \<lparr>maxChunkSize = Some 10, minChunkSize = Some 1, overlapSize = Some 0\<rparr>) = [2, 1]"
    by code_simp
  have bounds: "map (\<lambda>c. (pageStart c, pageEnd c))
     (chunkPagesWithProvenance
        [\<lparr>pageNumber = 0, content = ''Second page.''\<rparr>,
         \<lparr>pageNumber = 0, content = ''First page.''\<rparr>]
        \<lparr>maxChunkSize = Some 10, minChunkSize = Some 1, overlapSize = Some 0\<rparr>)
     = [(1, 0), (0, 0)]"
    by code_simp
  have starts: "map pageStart
     (chunkPagesWithProvenance
        [\<lparr>pageNumber = 0, content = ''Second page.''\<rparr>,
         \<lparr>pageNumber = 0, content = ''First page.''\<rparr>]
        \<lparr>maxChunkSize = Some 10, minChunkSize = Some 1, overlapSize = Some 0\<rparr>) = [1, 0]"
    by code_simp
  show ?thesis
    unfolding ends starts using bounds by simp
qed

subsection \<open>Chunk contents\<close>

lemma length_trim_le: "length (trim s) \<le> length s"
proof -
  have "length (trim s) \<le> length (dropWhile isWhiteSpace s)"
    unfolding trim_def using length_dropWhile_le [of isWhiteSpace "rev (dropWhile isWhiteSpace s)"]
    by simp
  also have "\<dots> \<le> length s" by (rule length_dropWhile_le)
  finally show ?thesis .
qed

lemma length_replace_crlf_le: "length (replace_crlf s) \<le> length s"
  by (induction s rule: replace_crlf.induct) auto

lemma length_collapse_newlines_le: "length (collapse_newlines s) \<le> length s"
proof (induction s rule: collapse_newlines.induct)
  case 1
  show ?case by simp
next
  case (2 c cs)
  show ?case
  proof (cases "c = LF")
    case False
    with 2 show ?thesis by simp
  next
    case True
    let ?run = "takeWhile (\<lambda>x. x = LF) (c # cs)"
    let ?rest = "dropWhile (\<lambda>x. x = LF) (c # cs)"
    have ih: "length (collapse_newlines ?rest) \<le> length ?rest"
      using 2(1) [OF True refl refl] .
    have split: "length ?run + length ?rest = length (c # cs)"
      by (metis length_append takeWhile_dropWhile_id)
    have "length (if 3 \<le> length ?run then [LF, LF] else ?run) \<le> length ?run" by simp
    moreover have "collapse_newlines (c # cs) =
        (if 3 \<le> length ?run then [LF, LF] else ?run) @ collapse_newlines ?rest"
      using True by (simp add: Let_def)
    ultimately show ?thesis using ih split
      by (metis add_mono length_append)
  qed
qed

lemma length_join:
  "length (join sep xs) = sum_list (map length xs) + (length xs - 1) * length sep"
  by (induction sep xs rule: join.induct) simp_all

lemma sublist_join_le:
  assumes "sublist xs ys"
  shows "length (join sep xs) \<le> length (join sep ys)"
proof -
  from assms obtain ps ss where ys: "ys = ps @ xs @ ss" by (auto simp: sublist_def)
  have "sum_list (map length xs) \<le> sum_list (map length ys)" by (simp add: ys)
  moreover have "length xs - 1 \<le> length ys - 1"
    unfolding ys by simp
  then have "(length xs - 1) * length sep \<le> (length ys - 1) * length sep"
    by (rule mult_le_mono1)
  ultimately show ?thesis by (simp add: length_join add_mono)
qed

lemma overlapLoop_suffix:
  "\<exists>k. overlapLoop overlap tot rs acc = rev (take k rs) @ acc"
proof (induction rs arbitrary: tot acc)
  case Nil
  show ?case by simp
next
  case (Cons r rs)
  show ?case
  proof (cases "tot + int (length r) > overlap")
    case True
    then have "overlapLoop overlap tot (r # rs) acc = rev (take 0 (r # rs)) @ acc"
      by (simp add: Let_def)
    then show ?thesis by blast
  next
    case False
    obtain k where "overlapLoop overlap (tot + int (length r)) rs (r # acc) = rev (take k rs) @ r # acc"
      using Cons.IH by blast
    with False have "overlapLoop overlap tot (r # rs) acc = rev (take (Suc k) (r # rs)) @ acc"
      by (simp add: Let_def)
    then show ?thesis by blast
  qed
qed

lemma getOverlapSentences_suffix: "suffix (getOverlapSentences sents overlap) sents"
proof (cases "length sents = 0")
  case True
  then show ?thesis by (simp add: getOverlapSentences_def)
next
  case False
  obtain k where "overlapLoop overlap 0 (rev sents) [] = rev (take k (rev sents)) @ []"
    using overlapLoop_suffix by blast
  then have "getOverlapSentences sents overlap = drop (length sents - k) sents"
    using False by (simp add: getOverlapSentences_def rev_take)
  then show ?thesis by (simp add: suffix_drop)
qed

lemma sublist_append_right: "sublist xs ys \<Longrightarrow> sublist xs (ys @ zs)"
proof -
  assume "sublist xs ys"
  then obtain ps ss where "ys = ps @ xs @ ss" by (auto simp: sublist_def)
  then have "ys @ zs = ps @ xs @ (ss @ zs)" by simp
  then show ?thesis unfolding sublist_def by blast
qed

lemma chunks_from_mono: "chunks_from m seen cs \<Longrightarrow> chunks_from m (seen @ extra) cs"
  by (auto simp: chunks_from_def sublist_append_right)

lemma addSentence_content_inv:
  assumes "content_inv m seen st"
  shows "content_inv m (seen @ [trim sentence]) (addSentence maxSize m overlap p st sentence)"
proof -
  let ?cur = "currentChunkSentences st"
  let ?c = "createChunk ?cur (chunkIndex_next st) (currentPageStart st) (currentPageEnd st)"
  have cur: "suffix ?cur seen" and old: "chunks_from m seen (chunks st)"
    using assms by (auto simp: content_inv_def)
  have old': "chunks_from m (seen @ [trim sentence]) (chunks st)"
    using old by (rule chunks_from_mono)
  have sub: "sublist ?cur (seen @ [trim sentence])"
    using cur by (simp add: sublist_append_right)
  have new: "m \<le> int (length (content_chunk ?c)) \<Longrightarrow>
             chunks_from m (seen @ [trim sentence]) (chunks st @ [?c])"
    using old' sub by (auto simp: chunks_from_def createChunk_def)
  have ov: "suffix (getOverlapSentences ?cur overlap @ [trim sentence]) (seen @ [trim sentence])"
    using suffix_order.trans [OF getOverlapSentences_suffix cur] by simp
  have keep: "suffix (?cur @ [trim sentence]) (seen @ [trim sentence])"
    using cur by simp
  show ?thesis
    using old' new ov keep
    by (auto simp: addSentence_def Let_def content_inv_def)
qed

lemma addSentences_content_inv:
  "content_inv m seen st \<Longrightarrow>
   content_inv m (seen @ map trim sents) (foldl (addSentence maxSize m overlap p) st sents)"
proof (induction sents arbitrary: st seen)
  case Nil
  then show ?case by simp
next
  case (Cons s sents)
  have "content_inv m (seen @ [trim s]) (addSentence maxSize m overlap p st s)"
    using Cons.prems by (rule addSentence_content_inv)
  from Cons.IH [OF this] show ?case by simp
qed

lemma addPage_content_inv:
  "content_inv m seen st \<Longrightarrow>
   content_inv m (seen @ pageSentences page) (addPage maxSize m overlap st page)"
  by (simp add: addPage_def pageSentences_def Let_def addSentences_content_inv)

lemma addPages_content_inv:
  "content_inv m seen st \<Longrightarrow>
   content_inv m (seen @ documentSentences pages) (foldl (addPage maxSize m overlap) st pages)"
proof (induction pages arbitrary: st seen)
  case Nil
  then show ?case by (simp add: documentSentences_def)
next
  case (Cons page pages)
  have "content_inv m (seen @ pageSentences page) (addPage maxSize m overlap st page)"
    using Cons.prems by (rule addPage_content_inv)
  from Cons.IH [OF this] show ?case by (simp add: documentSentences_def)
qed

lemma chunks_from_document:
  "chunks_from (minSize_of options) (documentSentences pages) (chunkPagesWithProvenance pages options)"
proof -
  define maxSize where "maxSize = (case maxChunkSize options of None \<Rightarrow> 1000 | Some v \<Rightarrow> v)"
  define m where "m = minSize_of options"
  define overlap where "overlap = (case overlapSize options of None \<Rightarrow> 100 | Some v \<Rightarrow> v)"
  define start where "start = \<lparr>chunks = [], currentChunkSentences = [], currentChunkSize = 0,
                   currentPageStart = 1, currentPageEnd = 1, chunkIndex_next = 0\<rparr>"
  define st where "st = foldl (addPage maxSize m overlap) start pages"
  have "content_inv m [] start"
    by (simp add: content_inv_def chunks_from_def start_def)
  from addPages_content_inv [OF this]
  have inv: "content_inv m (documentSentences pages) st"
    unfolding st_def by simp
  let ?c = "createChunk (currentChunkSentences st) (chunkIndex_next st)
              (currentPageStart st) (currentPageEnd st)"
  have a: "chunks_from m (documentSentences pages) (chunks st)"
    using inv by (simp add: content_inv_def)
  have b: "m \<le> int (length (content_chunk ?c)) \<Longrightarrow>
           chunks_from m (documentSentences pages) (chunks st @ [?c])"
    using inv by (auto simp: content_inv_def chunks_from_def createChunk_def)
  have "chunkPagesWithProvenance pages options =
      (if length (currentChunkSentences st) > 0 then
         if int (length (content_chunk ?c)) \<ge> m then chunks st @ [?c] else chunks st
       else chunks st)"
    by (simp add: chunkPagesWithProvenance_def Let_def st_def start_def maxSize_def m_def
        minSize_of_def overlap_def)
  then show ?thesis using a b unfolding m_def by simp
qed

lemma weight_simps [simp]:
  "weight [] = 0" "weight (x # xs) = length x + 1 + weight xs"
  "weight (xs @ ys) = weight xs + weight ys"
  by (simp_all add: weight_def)

lemma matchSentenceBoundary_pos: "matchSentenceBoundary prev rest = Some n \<Longrightarrow> 0 < n"
  by (auto simp: matchSentenceBoundary_def Let_def split: option.splits if_splits)

lemma splitAt_weight: "weight (splitAt prev piece rest) \<le> length piece + length rest + 1"
proof (induction prev piece rest rule: splitAt.induct)
  case (1 prev piece)
  show ?case by simp
next
  case (2 prev piece c cs)
  show ?case
  proof (cases "matchSentenceBoundary prev (c # cs)")
    case None
    with 2 show ?thesis by simp
  next
    case (Some n)
    have "0 < n" using Some by (rule matchSentenceBoundary_pos)
    moreover have "weight (splitAt (Some (last (take n (c # cs)))) [] (drop n (c # cs)))
        \<le> length (drop n (c # cs)) + 1"
      using 2 Some by simp
    ultimately show ?thesis using Some by simp
  qed
qed

lemma weight_trim_filter: "weight (filter P (map trim ps)) \<le> weight ps"
proof (induction ps)
  case Nil
  show ?case by simp
next
  case (Cons p ps)
  have "length (trim p) \<le> length p" by (rule length_trim_le)
  with Cons show ?case by simp
qed

lemma weight_map_trim: "weight (map trim ps) \<le> weight ps"
  using weight_trim_filter [of "\<lambda>_. True" ps] by simp

lemma splitIntoSentences_weight: "weight (splitIntoSentences t) \<le> length t + 1"
proof -
  have "weight (filter (\<lambda>s. 0 < length s) (map trim (split_sentenceRegex t))) \<le> length t + 1"
    using weight_trim_filter [of "\<lambda>s. 0 < length s" "split_sentenceRegex t"]
      splitAt_weight [of None "[]" t]
    by (simp add: split_sentenceRegex_def)
  moreover have "weight [trim t] \<le> length t + 1"
    using length_trim_le [of t] by simp
  ultimately show ?thesis by (simp add: splitIntoSentences_def Let_def)
qed

lemma pageSentences_weight: "weight (pageSentences page) \<le> length (content page) + 1"
proof (cases "trim (content page) = []")
  case True
  then show ?thesis by (simp add: pageSentences_def)
next
  case False
  let ?clean = "trim (collapse_newlines (replace_crlf (content page)))"
  have "length ?clean \<le> length (collapse_newlines (replace_crlf (content page)))"
    by (rule length_trim_le)
  also have "\<dots> \<le> length (replace_crlf (content page))" by (rule length_collapse_newlines_le)
  also have "\<dots> \<le> length (content page)" by (rule length_replace_crlf_le)
  finally have "length ?clean \<le> length (content page)" .
  moreover have "weight (map trim (splitIntoSentences ?clean)) \<le> length ?clean + 1"
    using weight_map_trim [of "splitIntoSentences ?clean"] splitIntoSentences_weight [of ?clean]
    by simp
  ultimately show ?thesis using False by (simp add: pageSentences_def)
qed

lemma documentSentences_weight:
  "weight (documentSentences pages) \<le> textLength pages + length pages"
proof (induction pages)
  case Nil
  show ?case by (simp add: documentSentences_def textLength_def)
next
  case (Cons page pages)
  have "weight (documentSentences (page # pages)) = weight (pageSentences page) + weight (documentSentences pages)"
    by (simp add: documentSentences_def)
  with Cons pageSentences_weight [of page] show ?case by (simp add: textLength_def)
qed

lemma length_join_space: "xs \<noteq> [] \<Longrightarrow> length (join '' '' xs) + 1 = weight xs"
  by (cases xs) (simp_all add: length_join weight_def)

lemma chunk_content_le:
  assumes "c \<in> set (chunkPagesWithProvenance pages options)"
  shows "int (length (content_chunk c)) \<le> int (textLength pages) + int (length pages) - 1"
proof -
  have sub: "sublist (sentences c) (documentSentences pages)"
    and cont: "content_chunk c = join '' '' (sentences c)"
    using chunks_from_document [of options pages] assms by (auto simp: chunks_from_def)
  have le: "length (content_chunk c) \<le> length (join '' '' (documentSentences pages))"
    unfolding cont using sub by (rule sublist_join_le)
  show ?thesis
  proof (cases "documentSentences pages = []")
    case True
    with le have "length (content_chunk c) = 0" by simp
    moreover have "pages \<noteq> []"
      using assms by (auto simp: chunkPagesWithProvenance_def Let_def)
    then have "0 < length pages" by simp
    ultimately show ?thesis by linarith
  next
    case False
    have "length (join '' '' (documentSentences pages)) + 1 \<le> textLength pages + length pages"
      using length_join_space [OF False] documentSentences_weight [of pages] by simp
    with le show ?thesis by linarith
  qed
qed

text \<open>
  Claim C4, as amended. Every chunk the chunker emits has a content of at least
  \<open>minChunkSize\<close> characters (200 when the option is absent), at a split and at the end of
  the input; and for every page list in which the characters of all the pages and one
  separator between consecutive pages add up to fewer than \<open>minChunkSize\<close>, the chunker
  returns the empty list.
\<close>

theorem chunk_minimum_size:
  "(\<forall>c\<in>set (chunkPagesWithProvenance pages options).
      minSize_of options \<le> int (length (content_chunk c))) \<and>
   (int (textLength pages) + int (length pages) - 1 < minSize_of options \<longrightarrow>
      chunkPagesWithProvenance pages options = [])"
proof (intro conjI impI)
  show big: "\<forall>c\<in>set (chunkPagesWithProvenance pages options).
      minSize_of options \<le> int (length (content_chunk c))"
    using chunks_from_document [of options pages] unfolding chunks_from_def by blast
  assume short: "int (textLength pages) + int (length pages) - 1 < minSize_of options"
  show "chunkPagesWithProvenance pages options = []"
  proof (rule ccontr)
    assume "chunkPagesWithProvenance pages options \<noteq> []"
    then obtain c where c: "c \<in> set (chunkPagesWithProvenance pages options)"
      by (cases "chunkPagesWithProvenance pages options") auto
    from chunk_content_le [OF c] big c short show False by fastforce
  qed
qed

theorem chunk_minimum_size_witness:
  "map (\<lambda>c. length (content_chunk c))
     (chunkPagesWithProvenance
        [\<lparr>pageNumber = 1, content = ''One two. Three four. Five six. Seven''\<rparr>,
         \<lparr>pageNumber = 2, content = ''Hello. World is big.''\<rparr>]
        \<lparr>maxChunkSize = Some 20, minChunkSize = Some 5, overlapSize = Some 10\<rparr>) = [20, 22, 20] \<and>
   chunkPagesWithProvenance [\<lparr>pageNumber = 1, content = ''A short note.''\<rparr>]
     \<lparr>maxChunkSize = None, minChunkSize = None, overlapSize = None\<rparr> = []"
proof
  show "map (\<lambda>c. length (content_chunk c))
     (chunkPagesWithProvenance
        [\<lparr>pageNumber = 1, content = ''One two. Three four. Five six. Seven''\<rparr>,
         \<lparr>pageNumber = 2, content = ''Hello. World is big.''\<rparr>]
        \<lparr>maxChunkSize = Some 20, minChunkSize = Some 5, overlapSize = Some 10\<rparr>) = [20, 22, 20]"
    by code_simp
  have "int (textLength [\<lparr>pageNumber = 1, content = ''A short note.''\<rparr>])
          + int (length [\<lparr>pageNumber = 1, content = ''A short note.''\<rparr>]) - 1
        < minSize_of \<lparr>maxChunkSize = None, minChunkSize = None, overlapSize = None\<rparr>"
    by (simp add: textLength_def minSize_of_def)
  with chunk_minimum_size
    [of "[\<lparr>pageNumber = 1, content = ''A short note.''\<rparr>]"
        "\<lparr>maxChunkSize = None, minChunkSize = None, overlapSize = None\<rparr>"]
  show "chunkPagesWithProvenance [\<lparr>pageNumber = 1, content = ''A short note.''\<rparr>]
     \<lparr>maxChunkSize = None, minChunkSize = None, overlapSize = None\<rparr> = []"
    by blast
qed

text \<open>
  The claim as stated fails when the text is spread over pages: two pages of two
  characters each hold four characters, fewer than a \<open>minChunkSize\<close> of 5, and the chunker
  still returns a chunk, of the five characters \<open>A. B.\<close>.
\<close>

theorem chunk_minimum_size_counterexample:
  "textLength [\<lparr>pageNumber = 1, content = ''A.''\<rparr>, \<lparr>pageNumber = 2, content = ''B.''\<rparr>] = 4 \<and>
   map content_chunk
     (chunkPagesWithProvenance
        [\<lparr>pageNumber = 1, content = ''A.''\<rparr>, \<lparr>pageNumber = 2, content = ''B.''\<rparr>]
        \<lparr>maxChunkSize = None, minChunkSize = Some 5, overlapSize = None\<rparr>) = [''A. B.'']"
proof
  show "textLength [\<lparr>pageNumber = 1, content = ''A.''\<rparr>, \<lparr>pageNumber = 2, content = ''B.''\<rparr>] = 4"
    by (simp add: textLength_def)
  show "map content_chunk
     (chunkPagesWithProvenance
        [\<lparr>pageNumber = 1, content = ''A.''\<rparr>, \<lparr>pageNumber = 2, content = ''B.''\<rparr>]
        \<lparr>maxChunkSize = None, minChunkSize = Some 5, overlapSize = None\<rparr>) = [''A. B.'']"
    by code_simp
qed

subsection \<open>Blank pages\<close>

lemma chunker_all_blank:
  assumes "\<forall>page\<in>set pages. trim (content page) = []"
  shows "chunkPagesWithProvenance pages options = []"
proof -
  have "filter (\<lambda>page. trim (content page) \<noteq> []) pages = []"
    using assms by (simp add: filter_empty_conv)
  then have "chunkPagesWithProvenance pages options = chunkPagesWithProvenance [] options"
    using chunker_skips_blank_pages [of pages options] by simp
  then show ?thesis by (simp add: chunkPagesWithProvenance_def Let_def)
qed

text \<open>
  Claim C10. A page whose content is blank contributes no sentences and should never be
  the \<open>pageStart\<close> or \<open>pageEnd\<close> of a chunk. With the default options, a blank page 1
  before a page 2 of text gives one chunk, whose text is all from page 2 and whose
  \<open>pageStart\<close> is 1: the start of the first chunk is the constant 1 the loop begins with,
  not the page of its first sentence.
\<close>

theorem chunker_blank_first_page:
  "pageSentences \<lparr>pageNumber = 1, content = '' ''\<rparr> = [] \<and>
   map (\<lambda>c. (chunkIndex c, pageStart c, pageEnd c, length (content_chunk c)))
     (chunkPagesWithProvenance
        [\<lparr>pageNumber = 1, content = '' ''\<rparr>,
         \<lparr>pageNumber = 2, content = concat (replicate 40 ''Hello. '')\<rparr>]
        \<lparr>maxChunkSize = None, minChunkSize = None, overlapSize = None\<rparr>)
     = [(0, 1, 2, 279)]"
proof
  show "pageSentences \<lparr>pageNumber = 1, content = '' ''\<rparr> = []"
    by code_simp
  show "map (\<lambda>c. (chunkIndex c, pageStart c, pageEnd c, length (content_chunk c)))
     (chunkPagesWithProvenance
        [\<lparr>pageNumber = 1, content = '' ''\<rparr>,
         \<lparr>pageNumber = 2, content = concat (replicate 40 ''Hello. '')\<rparr>]
        \<lparr>maxChunkSize = None, minChunkSize = None, overlapSize = None\<rparr>)
     = [(0, 1, 2, 279)]"
    by code_simp
qed

section \<open>Properties of the parsers\<close>

subsection \<open>Page numbers of the text and CSV parsers\<close>

lemma csvLine_empty: "csvLine [''name'', ''city''] (rowObject (csvRecord [''name'', ''city''] [[], []])) = []"
  by code_simp

lemma csvLine_Ann:
  "csvLine [''name'', ''city''] (rowObject (csvRecord [''name'', ''city''] [''Ann'', []])) = ''name: Ann''"
  by code_simp

lemma csv_gap_pages:
  "csvPageLoop [''name'', ''city''] 0
     (replicate 100 (rowObject (csvRecord [''name'', ''city''] [[], []]))
        @ [rowObject (csvRecord [''name'', ''city''] [''Ann'', []])]) []
     = [\<lparr>pageNumber = 2, content = ''name: Ann''\<rparr>]"
proof -
  let ?hs = "[''name'', ''city'']"
  let ?rows = "replicate 100 (rowObject (csvRecord ?hs [[], []])) @ [rowObject (csvRecord ?hs [''Ann'', []])]"
  have first: "csvPageLoop ?hs 0 ?rows [] = csvPageLoop ?hs 100 ?rows []"
    by (subst csvPageLoop.simps) (simp add: ROWS_PER_PAGE_def csvLine_empty)
  have second: "csvPageLoop ?hs 100 ?rows []
                  = csvPageLoop ?hs 200 ?rows [\<lparr>pageNumber = 2, content = ''name: Ann''\<rparr>]"
    by (subst csvPageLoop.simps) (simp add: ROWS_PER_PAGE_def csvLine_Ann)
  have third: "csvPageLoop ?hs 200 ?rows [\<lparr>pageNumber = 2, content = ''name: Ann''\<rparr>]
                  = [\<lparr>pageNumber = 2, content = ''name: Ann''\<rparr>]"
    by (subst csvPageLoop.simps) simp
  show ?thesis by (simp only: first second third)
qed

lemma testEmptyLine_csvRecord: "testEmptyLine (csvRecord names cs) \<longleftrightarrow> cs = [[]]"
  by (simp add: testEmptyLine_def csvRecord_def)

lemma gap_csv_parse:
  "Papa_parse gap_csv MAX_ROWS trim =
     \<lparr>data = replicate 100 (rowObject (csvRecord [''name'', ''city''] [[], []]))
               @ [rowObject (csvRecord [''name'', ''city''] [''Ann'', []])],
      errors = [], meta_fields = Some [''name'', ''city'']\<rparr>"
proof -
  have names: "trim ''name'' = ''name''" "trim ''city'' = ''city''"
    by code_simp+
  have header: "cells (csvRecord [''name'', ''city''] [''name'', ''city'']) = [''name'', ''city'']"
    by (simp add: csvRecord_def)
  have parsed: "(if MAX_ROWS = 0 then records gap_csv else take (MAX_ROWS + 1) (records gap_csv))
      = records gap_csv"
    by (simp add: gap_csv_def MAX_ROWS_def)
  have kept: "filter (\<lambda>l. \<not> testEmptyLine l) (records gap_csv)
      = csvRecord [''name'', ''city''] [''name'', ''city'']
          # replicate 100 (csvRecord [''name'', ''city''] [[], []])
          @ [csvRecord [''name'', ''city''] [''Ann'', []]]"
    by (simp add: gap_csv_def testEmptyLine_csvRecord)
  show ?thesis
    unfolding Papa_parse_def Let_def parsed kept
    by (simp add: header names gap_csv_def)
qed

text \<open>
  Claim C5. The pages a parser returns should be numbered \<open>1..totalPages\<close> with no gaps.
  A text file with the letter a, 200 line feeds and the letter b has 201 lines; the second
  window of 100 lines is blank and pushes no page, and the third window is numbered by its
  position: the pages are numbered 1 and 3, and \<open>totalPages\<close> is 2. In the same way a CSV
  file of two columns whose first 100 data rows have empty cells and whose last row has a
  name gives one page, numbered 2.
\<close>

theorem extractWithTxt_page_gap:
  "map pageNumber (pages_doc (extractWithTxt (''a'' @ replicate 200 LF @ ''b''))) = [1, 3] \<and>
   totalPages (extractWithTxt (''a'' @ replicate 200 LF @ ''b'')) = 2 \<and>
   map pageNumber (pages_doc (extractWithCsv gap_csv)) = [2] \<and>
   totalPages (extractWithCsv gap_csv) = 1"
proof -
  have plain: "map pageNumber (pages_doc (extractWithTxt (''a'' @ replicate 200 LF @ ''b''))) = [1, 3] \<and>
      totalPages (extractWithTxt (''a'' @ replicate 200 LF @ ''b'')) = 2"
    by code_simp
  have sheet: "map pageNumber (pages_doc (extractWithCsv gap_csv)) = [2] \<and>
      totalPages (extractWithCsv gap_csv) = 1"
    by (simp add: extractWithCsv_def gap_csv_parse Let_def csv_gap_pages)
  from plain sheet show ?thesis by blast
qed

subsection \<open>The row cap of the CSV parser\<close>

text \<open>
  The rows the parser works on are the lines left of the first 10 001 when the empty
  ones are removed, without the first of them.
\<close>

lemma csv_rows:
  "data (Papa_parse file MAX_ROWS f)
     = map rowObject (tl (filter (\<lambda>l. \<not> testEmptyLine l) (take 10001 (records file))))"
  by (simp add: Papa_parse_def MAX_ROWS_def Let_def split: list.split)

lemma csv_rows_length:
  "length (data (Papa_parse file MAX_ROWS f))
     = length (filter (\<lambda>l. \<not> testEmptyLine l) (take 10001 (records file))) - 1"
  by (simp add: csv_rows)

lemma csv_rowCount:
  "rowCount (metadata (extractWithCsv file)) =
     (let n = length (filter (\<lambda>l. \<not> testEmptyLine l) (take 10001 (records file))) - 1
      in if n = 0 then None else Some n)"
  unfolding extractWithCsv_def Let_def csv_rows_length by simp

lemma csv_truncated:
  "truncated (metadata (extractWithCsv file)) =
     (let n = length (filter (\<lambda>l. \<not> testEmptyLine l) (take 10001 (records file))) - 1
      in if n = 0 then None else Some (10000 \<le> n))"
  unfolding extractWithCsv_def Let_def csv_rows_length by (simp add: MAX_ROWS_def)

lemma length_filter_take_le: "length (filter P (take n xs)) \<le> length (filter P xs)"
proof -
  have "length (filter P xs) = length (filter P (take n xs)) + length (filter P (drop n xs))"
    by (metis append_take_drop_id filter_append length_append)
  then show ?thesis by simp
qed

lemma length_dataRows:
  "length (dataRows file) = length (filter (\<lambda>l. \<not> testEmptyLine l) (records file)) - 1"
  by (simp add: dataRows_def)

lemma retained_le:
  "length (filter (\<lambda>l. \<not> testEmptyLine l) (take 10001 (records file))) - 1 \<le> 10000"
  "length (filter (\<lambda>l. \<not> testEmptyLine l) (take 10001 (records file))) - 1 \<le> length (dataRows file)"
proof -
  have "length (filter (\<lambda>l. \<not> testEmptyLine l) (take 10001 (records file)))
          \<le> length (take 10001 (records file))"
    by (rule length_filter_le)
  moreover have "length (take 10001 (records file)) \<le> 10001"
    by simp
  ultimately show "length (filter (\<lambda>l. \<not> testEmptyLine l) (take 10001 (records file))) - 1 \<le> 10000"
    by linarith
  show "length (filter (\<lambda>l. \<not> testEmptyLine l) (take 10001 (records file))) - 1 \<le> length (dataRows file)"
    using length_filter_take_le [of "\<lambda>l. \<not> testEmptyLine l" 10001 "records file"]
    unfolding length_dataRows by (rule diff_le_mono)
qed

lemma retained_exact:
  assumes "previewCountsRows file"
  shows "length (filter (\<lambda>l. \<not> testEmptyLine l) (take 10001 (records file))) - 1
           = min 10000 (length (dataRows file))"
proof -
  let ?P = "\<lambda>l. \<not> testEmptyLine l"
  let ?ls = "records file"
  have split: "length (filter ?P ?ls)
      = length (filter ?P (take 10001 ?ls)) + length (filter ?P (drop 10001 ?ls))"
    by (metis append_take_drop_id filter_append length_append)
  from assms consider
    (full) "list_all ?P (take 10001 ?ls)" | (rest) "list_all testEmptyLine (drop 10001 ?ls)"
    by (auto simp: previewCountsRows_def)
  then show ?thesis
  proof cases
    case full
    then have "filter ?P (take 10001 ?ls) = take 10001 ?ls"
      by (simp add: list_all_iff)
    then have same: "length (filter ?P (take 10001 ?ls)) = min (length ?ls) 10001"
      by simp
    show ?thesis
    proof (cases "length ?ls \<le> 10001")
      case True
      then have "length (filter ?P (drop 10001 ?ls)) = 0" by simp
      then show ?thesis
        unfolding length_dataRows split using same True by simp
    next
      case False
      then show ?thesis
        unfolding length_dataRows split using same by simp
    qed
  next
    case rest
    then have "filter ?P (drop 10001 ?ls) = []"
      by (simp add: list_all_iff)
    then have "length (filter ?P (drop 10001 ?ls)) = 0" by simp
    then show ?thesis
      unfolding length_dataRows split using retained_le(1) [of "file"] by simp
  qed
qed

text \<open>
  Claim C7, as amended. The CSV parser retains at most 10 000 data rows, and no more than
  the file has. On a file in which no line among the first 10 001 is empty, or every line
  after them is, it retains the smaller of 10 000 and the number of data rows of the file,
  and, when there is a data row, the metadata field \<open>truncated\<close> is true exactly when the
  file has at least 10 000 data rows, that is when 10 000 rows are retained; with no data
  row the metadata carry neither \<open>rowCount\<close> nor \<open>truncated\<close>.
\<close>

theorem csv_row_cap:
  "(case rowCount (metadata (extractWithCsv file)) of
      None \<Rightarrow> True
    | Some n \<Rightarrow> n \<le> 10000 \<and> n \<le> length (dataRows file)) \<and>
   (previewCountsRows file \<longrightarrow>
      rowCount (metadata (extractWithCsv file))
        = (if dataRows file = [] then None else Some (min 10000 (length (dataRows file)))) \<and>
      truncated (metadata (extractWithCsv file))
        = (if dataRows file = [] then None else Some (10000 \<le> length (dataRows file))))"
proof (intro conjI impI)
  show "case rowCount (metadata (extractWithCsv file)) of
      None \<Rightarrow> True
    | Some n \<Rightarrow> n \<le> 10000 \<and> n \<le> length (dataRows file)"
    using retained_le [of "file"] unfolding csv_rowCount by (simp add: Let_def)
next
  assume "previewCountsRows file"
  then have n: "length (filter (\<lambda>l. \<not> testEmptyLine l) (take 10001 (records file))) - 1
           = min 10000 (length (dataRows file))"
    by (rule retained_exact)
  show "rowCount (metadata (extractWithCsv file))
        = (if dataRows file = [] then None else Some (min 10000 (length (dataRows file))))"
    unfolding csv_rowCount n by (auto simp: Let_def min_def)
  show "truncated (metadata (extractWithCsv file))
        = (if dataRows file = [] then None else Some (10000 \<le> length (dataRows file)))"
    unfolding csv_truncated n by (auto simp: Let_def min_def)
qed

text \<open>
  The theorem at a file with two data rows and a line feed at its end: the empty line
  comes after the rows, both rows are retained and \<open>truncated\<close> is false.
\<close>

theorem csv_row_cap_witness:
  "previewCountsRows short_csv \<and>
   length (dataRows short_csv) = 2 \<and>
   rowCount (metadata (extractWithCsv short_csv)) = Some 2 \<and>
   truncated (metadata (extractWithCsv short_csv)) = Some False"
proof -
  have "previewCountsRows short_csv"
    by (simp add: previewCountsRows_def short_csv_def)
  moreover have rows: "length (dataRows short_csv) = 2"
    by (simp add: dataRows_def short_csv_def testEmptyLine_def csvRecord_def)
  moreover have "dataRows short_csv \<noteq> []"
    using rows by auto
  ultimately show ?thesis
    using csv_row_cap [of short_csv] by simp
qed

text \<open>
  The claim as stated fails on a file of exactly 10 000 data rows: no row is dropped, and
  \<open>truncated\<close> is true. It also fails on a file with a blank line before 10 001 data rows:
  the blank line is counted among the 10 001 lines read and then removed, 9 999 rows are
  retained, two rows are dropped, and \<open>truncated\<close> is false.
\<close>

theorem csv_row_cap_counterexample:
  "length (dataRows full_csv) = 10000 \<and>
   rowCount (metadata (extractWithCsv full_csv)) = Some 10000 \<and>
   truncated (metadata (extractWithCsv full_csv)) = Some True \<and>
   length (dataRows blank_line_csv) = 10001 \<and>
   rowCount (metadata (extractWithCsv blank_line_csv)) = Some 9999 \<and>
   truncated (metadata (extractWithCsv blank_line_csv)) = Some False"
proof -
  have full: "length (filter (\<lambda>l. \<not> testEmptyLine l) (take 10001 (records full_csv))) - 1 = 10000"
    by (simp add: full_csv_def testEmptyLine_csvRecord)
  have blank: "length (filter (\<lambda>l. \<not> testEmptyLine l) (take 10001 (records blank_line_csv))) - 1 = 9999"
    by (simp add: blank_line_csv_def testEmptyLine_csvRecord)
  have "length (dataRows full_csv) = 10000"
    by (simp add: dataRows_def full_csv_def testEmptyLine_csvRecord)
  moreover have "length (dataRows blank_line_csv) = 10001"
    by (simp add: dataRows_def blank_line_csv_def testEmptyLine_csvRecord)
  ultimately show ?thesis
    unfolding csv_rowCount csv_truncated full blank by (simp add: Let_def)
qed

subsection \<open>The sheets of the XLSX parser\<close>

lemma take_all_if: "(if n < length xs then take n xs else xs) = take n xs"
  by simp

lemma processSheet_skipped:
  "sheetSkipped (Sheets workbook name) \<Longrightarrow> processSheet workbook st name = st"
  by (auto simp: processSheet_def sheetSkipped_def sheetLines_def Let_def take_all_if)

lemma sheetLines_Nil: "sheetLines [] = []"
  by (simp add: sheetLines_def)

lemma sheetLines_header_only: "length (take MAX_ROWS_PER_SHEET sheetRows) \<le> 1 \<Longrightarrow> sheetLines sheetRows = []"
  by (simp add: sheetLines_def Let_def)

lemma processSheet_kept:
  assumes "\<not> sheetSkipped (Sheets workbook name)"
  shows "processSheet workbook st name =
     st\<lparr>pages_x := pages_x st @ [\<lparr>pageNumber = pageNumber_x st,
                                     content = sheetText name (Sheets workbook name)\<rparr>],
        totalChars_x := totalChars_x st + length (sheetText name (Sheets workbook name)),
        totalWords_x := totalWords_x st + countWords (sheetText name (Sheets workbook name)),
        pageNumber_x := pageNumber_x st + 1,
        sheetInfo_x := assignProperty name (sheetInfoOf (Sheets workbook name)) (sheetInfo_x st)\<rparr>"
proof -
  let ?d = "Sheets workbook name"
  have lines: "sheetLines ?d \<noteq> []" using assms by (simp add: sheetSkipped_def)
  have nonempty: "length ?d \<noteq> 0" using lines sheetLines_Nil by auto
  have datarows: "length (drop 1 (take MAX_ROWS_PER_SHEET ?d)) \<noteq> 0"
    using lines sheetLines_header_only [of ?d] by fastforce
  have rows: "length (drop 1 (take MAX_ROWS_PER_SHEET ?d)) = min 4999 (length ?d - 1)"
    by (simp add: MAX_ROWS_PER_SHEET_def)
  have lines': "filter (\<lambda>line. 0 < length line)
           (map (rowText (case take MAX_ROWS_PER_SHEET ?d of [] \<Rightarrow> [] | h # _ \<Rightarrow> h))
              (drop 1 (take MAX_ROWS_PER_SHEET ?d))) = sheetLines ?d"
    by (simp add: sheetLines_def Let_def)
  show ?thesis
    unfolding processSheet_def Let_def take_all_if
    using nonempty datarows lines
    by (simp only: lines' rows sheetText_def sheetInfoOf_def if_False length_0_conv refl
        MAX_ROWS_PER_SHEET_def [symmetric])
qed

text \<open>The pages of the loop: one for each sheet that is not skipped, numbered as pushed.\<close>

lemma xlsx_loop_pages:
  "let st = foldl (processSheet workbook) xlsx_start names;
       kept = processedNames workbook names
   in pages_x st = map (\<lambda>(i, name). \<lparr>pageNumber = int i, content = sheetText name (Sheets workbook name)\<rparr>)
                        (enumerate 1 kept) \<and>
      pageNumber_x st = 1 + int (length kept)"
proof (induction names rule: rev_induct)
  case Nil
  show ?case by (simp add: xlsx_start_def processedNames_def)
next
  case (snoc name names)
  let ?st = "foldl (processSheet workbook) xlsx_start names"
  let ?kept = "processedNames workbook names"
  have ih: "pages_x ?st = map (\<lambda>(i, name). \<lparr>pageNumber = int i, content = sheetText name (Sheets workbook name)\<rparr>)
                              (enumerate 1 ?kept)"
    "pageNumber_x ?st = 1 + int (length ?kept)"
    using snoc by (simp_all add: Let_def)
  show ?case
  proof (cases "sheetSkipped (Sheets workbook name)")
    case True
    then show ?thesis using ih
      by (simp add: Let_def processSheet_skipped processedNames_def)
  next
    case False
    let ?new = "processSheet workbook ?st name"
    have step: "?new =
       ?st\<lparr>pages_x := pages_x ?st @ [\<lparr>pageNumber = pageNumber_x ?st,
                                     content = sheetText name (Sheets workbook name)\<rparr>],
        totalChars_x := totalChars_x ?st + length (sheetText name (Sheets workbook name)),
        totalWords_x := totalWords_x ?st + countWords (sheetText name (Sheets workbook name)),
        pageNumber_x := pageNumber_x ?st + 1,
        sheetInfo_x := assignProperty name (sheetInfoOf (Sheets workbook name)) (sheetInfo_x ?st)\<rparr>"
      by (rule processSheet_kept [OF False])
    have kept: "processedNames workbook (names @ [name]) = ?kept @ [name]"
      using False by (simp add: processedNames_def)
    have enum: "enumerate 1 (?kept @ [name]) = enumerate 1 ?kept @ [(1 + length ?kept, name)]"
      by (simp add: enumerate_append_eq)
    have p: "pages_x ?new = map (\<lambda>(i, name). \<lparr>pageNumber = int i, content = sheetText name (Sheets workbook name)\<rparr>)
                              (enumerate 1 (?kept @ [name]))"
      unfolding enum by (simp add: step ih)
    have n: "pageNumber_x ?new = 1 + int (length (?kept @ [name]))"
      by (simp add: step ih)
    show ?thesis
      unfolding Let_def kept foldl_append foldl.simps using p n by simp
  qed
qed

text \<open>The assignment to a key of an object, read as a map.\<close>

lemma map_of_insertIndex:
  "key \<notin> fst ` set obj \<Longrightarrow> map_of (insertIndex n key v obj) = (map_of obj)(key \<mapsto> v)"
proof (induction obj)
  case Nil
  show ?case by simp
next
  case (Cons p obj)
  obtain k w where p: "p = (k, w)" by (cases p)
  have "k \<noteq> key" and "key \<notin> fst ` set obj"
    using Cons.prems by (auto simp: p)
  then show ?case
    using Cons.IH by (auto simp: p fun_upd_twist split: option.split)
qed

lemma map_of_snoc_fresh:
  "key \<notin> fst ` set obj \<Longrightarrow> map_of (obj @ [(key, v)]) = (map_of obj)(key \<mapsto> v)"
proof (induction obj)
  case Nil
  show ?case by simp
next
  case (Cons p obj)
  obtain k w where p: "p = (k, w)" by (cases p)
  have "k \<noteq> key" and "key \<notin> fst ` set obj"
    using Cons.prems by (auto simp: p)
  then show ?case
    using Cons.IH by (auto simp: p fun_eq_iff simp del: map_of_append)
qed

lemma map_of_assignProperty:
  "map_of (assignProperty key v obj)
     = (if key = ''__proto__'' then map_of obj else (map_of obj)(key \<mapsto> v))"
  unfolding assignProperty_def
  by (simp add: update_conv' map_of_insertIndex map_of_snoc_fresh split: option.split
      del: map_of_append)

text \<open>
  The entries of \<open>sheetInfo\<close> after the loop: a sheet that is not skipped and is not named
  \<open>__proto__\<close> has its entry, and the other entries are those from before the loop.
\<close>

lemma xlsx_loop_sheetInfo:
  "map_of (sheetInfo_x (foldl (processSheet workbook) st names)) name =
     (if name \<in> set names \<and> name \<noteq> ''__proto__'' \<and> \<not> sheetSkipped (Sheets workbook name)
      then Some (sheetInfoOf (Sheets workbook name))
      else map_of (sheetInfo_x st) name)"
proof (induction names rule: rev_induct)
  case Nil
  show ?case by simp
next
  case (snoc n names)
  show ?case
  proof (cases "sheetSkipped (Sheets workbook n)")
    case True
    then show ?thesis
      using snoc by (auto simp: processSheet_skipped)
  next
    case False
    show ?thesis
      using snoc False
      by (auto simp: processSheet_kept [OF False] map_of_assignProperty)
  qed
qed

lemma sheetLines_length: "length (sheetLines sheetRows) \<le> min 4999 (length sheetRows - 1)"
proof -
  have "length (sheetLines sheetRows) \<le> length (drop 1 (take MAX_ROWS_PER_SHEET sheetRows))"
    unfolding sheetLines_def Let_def
    by (metis length_filter_le length_map)
  also have "\<dots> = min 4999 (length sheetRows - 1)"
    by (simp add: MAX_ROWS_PER_SHEET_def)
  finally show ?thesis .
qed

text \<open>
  Claim C8, as amended. For every workbook, the XLSX parser keeps at most 5 000 rows of a
  sheet, the header row among them, that is the header row and up to 4 999 data rows: the
  sheets that are not skipped become the pages 1, 2, ... in order, the content of a page
  is \<open>[Sheet: <name>]\<close>, a line feed and the lines of the sheet's data rows, at most 4 999
  of them; for each such sheet whose name is not \<open>__proto__\<close> the metadata record, under
  its name, the number of data rows kept, which is 4 999 for a sheet with at least 4 999
  data rows, and whether the sheet was cut, which is the case when it has more than 5 000
  rows.
\<close>

theorem xlsx_sheet_pages:
  "map pageNumber (pages_doc (extractWithXlsx workbook))
     = map int [1..<Suc (length (processedNames workbook (SheetNames workbook)))] \<and>
   map content (pages_doc (extractWithXlsx workbook))
     = map (\<lambda>name. ''[Sheet: '' @ name @ '']'' @ [LF]
                      @ join [LF] (sheetLines (Sheets workbook name)))
         (processedNames workbook (SheetNames workbook)) \<and>
   list_all (\<lambda>name. length (sheetLines (Sheets workbook name))
                       \<le> min 4999 (length (Sheets workbook name) - 1))
         (SheetNames workbook) \<and>
   (\<forall>name\<in>set (processedNames workbook (SheetNames workbook)).
      name \<noteq> ''__proto__'' \<longrightarrow>
        map_of (sheetInfo (metadata (extractWithXlsx workbook))) name
          = Some \<lparr>rows = min 4999 (length (Sheets workbook name) - 1),
                  truncated_sheet = (5000 < length (Sheets workbook name))\<rparr>)"
proof -
  let ?st = "foldl (processSheet workbook) xlsx_start (SheetNames workbook)"
  let ?kept = "processedNames workbook (SheetNames workbook)"
  have res: "pages_x ?st = map (\<lambda>(i, name). \<lparr>pageNumber = int i, content = sheetText name (Sheets workbook name)\<rparr>)
                              (enumerate 1 ?kept)"
    using xlsx_loop_pages [of workbook "SheetNames workbook"] by (simp add: Let_def)
  have doc: "pages_doc (extractWithXlsx workbook) = pages_x ?st"
    "sheetInfo (metadata (extractWithXlsx workbook)) = sheetInfo_x ?st"
    by (simp_all add: extractWithXlsx_def Let_def xlsx_start_def)
  have "map pageNumber (pages_x ?st) = map (int \<circ> fst) (enumerate 1 ?kept)"
    unfolding res by (simp add: split_def o_def)
  also have "\<dots> = map int (map fst (enumerate 1 ?kept))"
    by (simp only: map_map)
  also have "map fst (enumerate 1 ?kept) = [1..<1 + length ?kept]"
    by (rule map_fst_enumerate)
  finally have numbers: "map pageNumber (pages_x ?st) = map int [1..<Suc (length ?kept)]"
    by simp
  have "map content (pages_x ?st)
          = map ((\<lambda>name. sheetText name (Sheets workbook name)) \<circ> snd) (enumerate 1 ?kept)"
    unfolding res by (simp add: split_def o_def)
  also have "\<dots> = map (\<lambda>name. sheetText name (Sheets workbook name)) (map snd (enumerate 1 ?kept))"
    by (simp only: map_map)
  also have "map snd (enumerate 1 ?kept) = ?kept"
    by (rule map_snd_enumerate)
  finally have texts: "map content (pages_x ?st) = map (\<lambda>name. sheetText name (Sheets workbook name)) ?kept" .
  have lens: "list_all (\<lambda>name. length (sheetLines (Sheets workbook name))
                             \<le> min 4999 (length (Sheets workbook name) - 1))
               (SheetNames workbook)"
    unfolding list_all_iff using sheetLines_length by blast
  have info: "\<forall>name\<in>set ?kept. name \<noteq> ''__proto__'' \<longrightarrow>
        map_of (sheetInfo_x ?st) name
          = Some \<lparr>rows = min 4999 (length (Sheets workbook name) - 1),
                  truncated_sheet = (5000 < length (Sheets workbook name))\<rparr>"
    by (simp add: xlsx_loop_sheetInfo processedNames_def sheetInfoOf_def)
  show ?thesis
    unfolding doc numbers texts sheetText_def
    using lens info by (intro conjI refl)
qed

text \<open>
  The theorem at a workbook of three sheets, the second of which has only a header row:
  the two others are the pages 1 and 2 and have their entries in the metadata. The cell
  with the number 0 gives no text.
\<close>

theorem xlsx_sheet_pages_witness:
  "processedNames small_workbook (SheetNames small_workbook) = [''People'', ''Pets''] \<and>
   map pageNumber (pages_doc (extractWithXlsx small_workbook)) = [1, 2] \<and>
   map content (pages_doc (extractWithXlsx small_workbook))
     = [''[Sheet: People]'' @ [LF] @ ''name: Ann | age: 7'' @ [LF] @ ''name: Bob'',
        ''[Sheet: Pets]'' @ [LF] @ ''pet: cat''] \<and>
   map_of (sheetInfo (metadata (extractWithXlsx small_workbook))) ''People''
     = Some \<lparr>rows = 2, truncated_sheet = False\<rparr> \<and>
   map_of (sheetInfo (metadata (extractWithXlsx small_workbook))) ''Pets''
     = Some \<lparr>rows = 1, truncated_sheet = False\<rparr>"
proof -
  have kept: "processedNames small_workbook (SheetNames small_workbook) = [''People'', ''Pets'']"
    by code_simp
  have numbers: "map int [1..<Suc (length [''People'', ''Pets''])] = [1, 2]"
    by code_simp
  have texts: "map content (pages_doc (extractWithXlsx small_workbook))
     = [''[Sheet: People]'' @ [LF] @ ''name: Ann | age: 7'' @ [LF] @ ''name: Bob'',
        ''[Sheet: Pets]'' @ [LF] @ ''pet: cat'']"
    by code_simp
  have sizes: "length (Sheets small_workbook ''People'') = 3" "length (Sheets small_workbook ''Pets'') = 2"
    by (simp_all add: small_workbook_def)
  show ?thesis
    using xlsx_sheet_pages [of small_workbook]
    unfolding kept numbers by (simp add: texts sizes)
qed

text \<open>
  The claim as stated fails on a sheet of a header row and 5 000 data rows: 4 999 data
  rows are recorded and the page has 4 999 lines of data. It also fails on a sheet named
  \<open>__proto__\<close>: the sheet becomes a page, and the metadata record nothing for it.
\<close>

lemma rowText_id_7: "rowText [Text ''id''] [Value True ''7''] = ''id: 7''"
  by code_simp

lemma big_sheetLines:
  "sheetLines ([Text ''id''] # replicate 5000 [Value True ''7'']) = replicate 4999 ''id: 7''"
proof -
  have "take MAX_ROWS_PER_SHEET ([Text ''id''] # replicate 5000 [Value True ''7''])
          = [Text ''id''] # replicate 4999 [Value True ''7'']"
    by (simp add: MAX_ROWS_PER_SHEET_def)
  then show ?thesis
    by (simp add: sheetLines_def Let_def rowText_id_7)
qed

lemma assignProperty_Data: "assignProperty ''Data'' v [] = [(''Data'', v)]"
proof -
  have "arrayIndex ''Data'' = None" by code_simp
  then show ?thesis by (simp add: assignProperty_def)
qed

theorem xlsx_row_cap_counterexample:
  "length (Sheets big_workbook ''Data'') = 1 + 5000 \<and>
   sheetInfo (metadata (extractWithXlsx big_workbook))
     = [(''Data'', \<lparr>rows = 4999, truncated_sheet = True\<rparr>)] \<and>
   map content (pages_doc (extractWithXlsx big_workbook))
     = [''[Sheet: Data]'' @ [LF] @ join [LF] (replicate 4999 ''id: 7'')] \<and>
   map content (pages_doc (extractWithXlsx proto_workbook))
     = [''[Sheet: __proto__]'' @ [LF] @ ''id: 7''] \<and>
   sheetInfo (metadata (extractWithXlsx proto_workbook)) = [] \<and>
   processedSheets (metadata (extractWithXlsx proto_workbook)) = 0"
proof -
  let ?st = "foldl (processSheet big_workbook) xlsx_start [''Data'']"
  have "\<not> sheetSkipped (Sheets big_workbook ''Data'')"
    by (simp add: sheetSkipped_def big_workbook_def big_sheetLines)
  then have step: "?st = xlsx_start
       \<lparr>pages_x := pages_x xlsx_start @ [\<lparr>pageNumber = pageNumber_x xlsx_start,
                                     content = sheetText ''Data'' (Sheets big_workbook ''Data'')\<rparr>],
        totalChars_x := totalChars_x xlsx_start + length (sheetText ''Data'' (Sheets big_workbook ''Data'')),
        totalWords_x := totalWords_x xlsx_start + countWords (sheetText ''Data'' (Sheets big_workbook ''Data'')),
        pageNumber_x := pageNumber_x xlsx_start + 1,
        sheetInfo_x := assignProperty ''Data'' (sheetInfoOf (Sheets big_workbook ''Data''))
                         (sheetInfo_x xlsx_start)\<rparr>"
    by (simp add: processSheet_kept)
  have res: "sheetInfo_x ?st = [(''Data'', sheetInfoOf (Sheets big_workbook ''Data''))]"
       "pages_x ?st = [\<lparr>pageNumber = 1, content = sheetText ''Data'' (Sheets big_workbook ''Data'')\<rparr>]"
    unfolding step by (simp_all add: xlsx_start_def assignProperty_Data)
  have info: "sheetInfoOf (Sheets big_workbook ''Data'') = \<lparr>rows = 4999, truncated_sheet = True\<rparr>"
    by (simp add: sheetInfoOf_def big_workbook_def)
  have doc: "pages_doc (extractWithXlsx big_workbook) = pages_x ?st"
    "sheetInfo (metadata (extractWithXlsx big_workbook)) = sheetInfo_x ?st"
    by (simp_all add: extractWithXlsx_def Let_def xlsx_start_def big_workbook_def)
  have page_text: "sheetText ''Data'' (Sheets big_workbook ''Data'')
                = ''[Sheet: Data]'' @ [LF] @ join [LF] (replicate 4999 ''id: 7'')"
    by (simp add: sheetText_def big_workbook_def big_sheetLines)
  have big: "length (Sheets big_workbook ''Data'') = 1 + 5000 \<and>
   sheetInfo (metadata (extractWithXlsx big_workbook))
     = [(''Data'', \<lparr>rows = 4999, truncated_sheet = True\<rparr>)] \<and>
   map content (pages_doc (extractWithXlsx big_workbook))
     = [''[Sheet: Data]'' @ [LF] @ join [LF] (replicate 4999 ''id: 7'')]"
    unfolding doc res info page_text by (simp add: big_workbook_def)
  have proto: "map content (pages_doc (extractWithXlsx proto_workbook))
     = [''[Sheet: __proto__]'' @ [LF] @ ''id: 7''] \<and>
   sheetInfo (metadata (extractWithXlsx proto_workbook)) = [] \<and>
   processedSheets (metadata (extractWithXlsx proto_workbook)) = 0"
    by code_simp
  from big proto show ?thesis by blast
qed

section \<open>Properties of the delete handler\<close>

text \<open>
  What the handler does to the jobs when it deletes a document that is neither deleted
  nor pending: the queued jobs of the document's versions are failed, every other job is
  left as it is.
\<close>

lemma cancelQueuedJobs_fold:
  "foldl (cancelQueuedJobs now) db versions =
     db\<lparr>ingestionJobs :=
          map (\<lambda>job. if status_job job = ''queued'' \<and> documentVersionId job \<in> id_version ` set versions
                      then failJob now job else job)
              (ingestionJobs db)\<rparr>"
proof (induction versions arbitrary: db)
  case Nil
  show ?case by (simp add: map_idI)
next
  case (Cons v versions)
  let ?g = "\<lambda>job. if documentVersionId job = id_version v \<and> status_job job = ''queued''
                  then failJob now job else job"
  let ?h = "\<lambda>job. if status_job job = ''queued'' \<and> documentVersionId job \<in> id_version ` set versions
                  then failJob now job else job"
  let ?h' = "\<lambda>job. if status_job job = ''queued'' \<and> documentVersionId job \<in> id_version ` set (v # versions)
                  then failJob now job else job"
  have step: "cancelQueuedJobs now db v = db\<lparr>ingestionJobs := map ?g (ingestionJobs db)\<rparr>"
    by (simp add: cancelQueuedJobs_def failJob_def)
  have pointwise: "?h (?g job) = ?h' job" for job
    by (auto simp: failJob_def)
  have "map ?h (map ?g (ingestionJobs db)) = map ?h' (ingestionJobs db)"
    unfolding map_map o_def using pointwise by (intro map_cong refl)
  then show ?case
    unfolding foldl_Cons Cons.IH step by simp
qed

lemma DELETE_jobs:
  assumes "requireBusinessAccess businessId = None" and "businessId \<noteq> []"
    and "find (\<lambda>d. id_doc d = documentId \<and> businessId_doc d = businessId) (documents db) = Some doc"
    and "status_doc doc \<noteq> ''deleted''" and "status_doc doc \<noteq> ''deleted_pending''"
  shows "ingestionJobs (snd (DELETE requireBusinessAccess now db documentId (Some businessId))) =
     map (\<lambda>job. if status_job job = ''queued'' \<and>
                     documentVersionId job \<in> id_version ` {v \<in> set (documentVersions db). documentId_version v = documentId}
                 then failJob now job else job)
         (ingestionJobs db)"
  using assms by (simp add: DELETE_def Let_def cancelQueuedJobs_fold)

text \<open>
  Claim C6. Deleting a document should set it to \<open>deleted_pending\<close> and fail each of its
  jobs that is queued, processing or ready to retry, with \<open>document_deleted\<close>. On an
  active document with a finished, a queued, a processing and a retry-ready job, the
  handler sets the document to \<open>deleted_pending\<close> and fails the queued job; the processing
  job and the retry-ready job keep their status, and no error code is set on them.
\<close>

theorem delete_leaves_running_jobs:
  "map status_doc (documents (snd (DELETE (\<lambda>b. None) 7 example_db ''d1'' (Some ''b1''))))
     = [''deleted_pending''] \<and>
   map (\<lambda>job. (id_job job, status_job job, errorCode_job job))
     (ingestionJobs (snd (DELETE (\<lambda>b. None) 7 example_db ''d1'' (Some ''b1''))))
     = [(''j1'', ''done'', None),
        (''j2'', ''failed'', Some ''document_deleted''),
        (''j3'', ''processing'', None),
        (''j4'', ''retry_ready'', None)]"
  by code_simp

section \<open>Properties of the encryption box\<close>

lemma getKey_length: "getKey ENCRYPTION_KEY = Inr key \<Longrightarrow> length key = 32"
  by (auto simp: getKey_def Let_def split: option.splits if_splits)

lemma createDecipheriv_source:
  assumes "length key = 32"
  shows "createDecipheriv ALGORITHM key iv TAG_LENGTH =
     (if iv = [] \<or> 128 < length iv then Inl (TypeError ''Invalid initialization vector'')
      else Inr (newDecipher key iv 16))"
  using assms
  by (simp add: createDecipheriv_def ALGORITHM_def TAG_LENGTH_def isValidGCMTagLength_def)

lemma setAuthTag_source:
  "setAuthTag (newDecipher key iv 16) tag =
     (if length tag \<noteq> 16
      then Inl (TypeError (''Invalid authentication tag length: '' @ decimal (length tag)))
      else Inr ((newDecipher key iv 16)\<lparr>authTag_d := Some tag\<rparr>))"
  by (simp add: setAuthTag_def newDecipher_def decipherWith_def isValidGCMTagLength_def)

lemma update_source:
  "update ((newDecipher key iv 16)\<lparr>authTag_d := Some tag\<rparr>) ciphertext =
     Inr (AES_256_GCM_text key iv ciphertext,
          (newDecipher key iv 16)\<lparr>authTag_d := Some tag, input_d := map uint ciphertext\<rparr>)"
  by (simp add: update_def AES_256_GCM_text_def newDecipher_def decipherWith_def)

lemma final_source:
  "final ((newDecipher key iv 16)\<lparr>authTag_d := Some tag, input_d := map uint ciphertext\<rparr>) =
     (if map uint tag = AES_256_GCM_tag key iv ciphertext then Inr []
      else Inl (Error ''Unsupported state or unable to authenticate data''))"
  by (simp add: final_def AES_256_GCM_tag_def newDecipher_def decipherWith_def)

text \<open>The outcome of \<open>decrypt\<close> for every input, once a key of 32 bytes is configured.\<close>

lemma decrypt_outcome:
  assumes "getKey ENCRYPTION_KEY = Inr key"
  shows "decrypt toString_utf8 ENCRYPTION_KEY encrypted =
     (if length (split_on (CHR '':'') encrypted) \<noteq> 3
        then Inl (Error ''Invalid encrypted format (expected iv:tag:ciphertext)'')
      else if encryptedField encrypted 0 = [] \<or> 128 < length (encryptedField encrypted 0)
        then Inl (TypeError ''Invalid initialization vector'')
      else if length (encryptedField encrypted 1) \<noteq> 16
        then Inl (TypeError (''Invalid authentication tag length: ''
                               @ decimal (length (encryptedField encrypted 1))))
      else if map uint (encryptedField encrypted 1)
                \<noteq> AES_256_GCM_tag key (encryptedField encrypted 0) (encryptedField encrypted 2)
        then Inl (Error ''Unsupported state or unable to authenticate data'')
      else Inr (toString_utf8
                  (AES_256_GCM_text key (encryptedField encrypted 0) (encryptedField encrypted 2))))"
proof -
  have key: "length key = 32"
    using assms by (rule getKey_length)
  show ?thesis
    unfolding decrypt_def Let_def assms encryptedField_def [symmetric]
    by (simp add: createDecipheriv_source [OF key] setAuthTag_source update_source final_source)
qed

text \<open>
  Claim C9, as amended. With a key of 32 bytes configured, for every input string,
  \<open>decrypt\<close> fails, and never returns a plaintext, when the input does not split on the
  separator into exactly three fields, when the decoded IV is empty or longer than 128
  bytes, when the decoded tag is not 16 bytes, or when the tag is not the AES-256-GCM tag
  of the ciphertext under the key and the IV; the four cases surface as four different
  errors; and an input of three fields with an IV of 1 to 128 bytes, whatever its length,
  and the right tag of 16 bytes is decrypted.
\<close>

theorem decrypt_rejections:
  assumes "getKey ENCRYPTION_KEY = Inr key"
  shows
    "(length (split_on (CHR '':'') encrypted) \<noteq> 3 \<or>
      encryptedField encrypted 0 = [] \<or> 128 < length (encryptedField encrypted 0) \<or>
      length (encryptedField encrypted 1) \<noteq> 16 \<or>
      map uint (encryptedField encrypted 1)
        \<noteq> AES_256_GCM_tag key (encryptedField encrypted 0) (encryptedField encrypted 2)
      \<longrightarrow> isl (decrypt toString_utf8 ENCRYPTION_KEY encrypted)) \<and>
     (length (split_on (CHR '':'') encrypted) \<noteq> 3
      \<longrightarrow> decrypt toString_utf8 ENCRYPTION_KEY encrypted
            = Inl (Error ''Invalid encrypted format (expected iv:tag:ciphertext)'')) \<and>
     (length (split_on (CHR '':'') encrypted) = 3 \<and>
      (encryptedField encrypted 0 = [] \<or> 128 < length (encryptedField encrypted 0))
      \<longrightarrow> decrypt toString_utf8 ENCRYPTION_KEY encrypted
            = Inl (TypeError ''Invalid initialization vector'')) \<and>
     (length (split_on (CHR '':'') encrypted) = 3 \<and>
      encryptedField encrypted 0 \<noteq> [] \<and> length (encryptedField encrypted 0) \<le> 128 \<and>
      length (encryptedField encrypted 1) \<noteq> 16
      \<longrightarrow> decrypt toString_utf8 ENCRYPTION_KEY encrypted
            = Inl (TypeError (''Invalid authentication tag length: ''
                                @ decimal (length (encryptedField encrypted 1))))) \<and>
     (length (split_on (CHR '':'') encrypted) = 3 \<and>
      encryptedField encrypted 0 \<noteq> [] \<and> length (encryptedField encrypted 0) \<le> 128 \<and>
      length (encryptedField encrypted 1) = 16 \<and>
      map uint (encryptedField encrypted 1)
        \<noteq> AES_256_GCM_tag key (encryptedField encrypted 0) (encryptedField encrypted 2)
      \<longrightarrow> decrypt toString_utf8 ENCRYPTION_KEY encrypted
            = Inl (Error ''Unsupported state or unable to authenticate data'')) \<and>
     (length (split_on (CHR '':'') encrypted) = 3 \<and>
      encryptedField encrypted 0 \<noteq> [] \<and> length (encryptedField encrypted 0) \<le> 128 \<and>
      length (encryptedField encrypted 1) = 16 \<and>
      map uint (encryptedField encrypted 1)
        = AES_256_GCM_tag key (encryptedField encrypted 0) (encryptedField encrypted 2)
      \<longrightarrow> decrypt toString_utf8 ENCRYPTION_KEY encrypted
            = Inr (toString_utf8
                     (AES_256_GCM_text key (encryptedField encrypted 0)
                        (encryptedField encrypted 2))))"
  unfolding decrypt_outcome [OF assms] by auto

text \<open>
  The theorem at a text that \<open>encrypt\<close> can produce: the word hello under the key of the
  bytes 0 to 31 and the IV of the 12 bytes 16 to 27. The three fields are the IV, the tag
  90 1d 3d 3b 2d 76 99 58 31 df 92 6b fa b7 35 5a and the ciphertext 15 9b f4 7a 26, and
  \<open>decrypt\<close> returns the bytes of hello to the UTF-8 decoder. With the first byte of the
  tag changed, \<open>decrypt\<close> fails in \<open>final\<close>.
\<close>

lemma example_getKey: "getKey (Some example_key) = Inr (map of_nat [0..<32])"
  by code_simp

lemma example_fields:
  "length (split_on (CHR '':'') ''EBESExQVFhcYGRob:kB09Oy12mVgx35Jr+rc1Wg==:FZv0eiY='') = 3"
  "encryptedField ''EBESExQVFhcYGRob:kB09Oy12mVgx35Jr+rc1Wg==:FZv0eiY='' 0 = map of_nat [16..<28]"
  "encryptedField ''EBESExQVFhcYGRob:kB09Oy12mVgx35Jr+rc1Wg==:FZv0eiY='' 1
     = [0x90, 0x1d, 0x3d, 0x3b, 0x2d, 0x76, 0x99, 0x58, 0x31, 0xdf, 0x92, 0x6b, 0xfa, 0xb7, 0x35, 0x5a]"
  "encryptedField ''EBESExQVFhcYGRob:kB09Oy12mVgx35Jr+rc1Wg==:FZv0eiY='' 2
     = [0x15, 0x9b, 0xf4, 0x7a, 0x26]"
  by code_simp+

lemma example_changed_fields:
  "length (split_on (CHR '':'') ''EBESExQVFhcYGRob:kR09Oy12mVgx35Jr+rc1Wg==:FZv0eiY='') = 3"
  "encryptedField ''EBESExQVFhcYGRob:kR09Oy12mVgx35Jr+rc1Wg==:FZv0eiY='' 0 = map of_nat [16..<28]"
  "encryptedField ''EBESExQVFhcYGRob:kR09Oy12mVgx35Jr+rc1Wg==:FZv0eiY='' 1
     = [0x91, 0x1d, 0x3d, 0x3b, 0x2d, 0x76, 0x99, 0x58, 0x31, 0xdf, 0x92, 0x6b, 0xfa, 0xb7, 0x35, 0x5a]"
  "encryptedField ''EBESExQVFhcYGRob:kR09Oy12mVgx35Jr+rc1Wg==:FZv0eiY='' 2
     = [0x15, 0x9b, 0xf4, 0x7a, 0x26]"
  by code_simp+

lemma example_tag:
  "AES_256_GCM_tag (map of_nat [0..<32]) (map of_nat [16..<28]) [0x15, 0x9b, 0xf4, 0x7a, 0x26]
     = [0x90, 0x1d, 0x3d, 0x3b, 0x2d, 0x76, 0x99, 0x58, 0x31, 0xdf, 0x92, 0x6b, 0xfa, 0xb7, 0x35, 0x5a]"
  by code_simp

lemma example_text:
  "AES_256_GCM_text (map of_nat [0..<32]) (map of_nat [16..<28]) [0x15, 0x9b, 0xf4, 0x7a, 0x26]
     = [0x68, 0x65, 0x6c, 0x6c, 0x6f]"
  by code_simp

theorem decrypt_rejections_witness:
  "getKey (Some example_key) = Inr (map of_nat [0..<32]) \<and>
   decrypt (\<lambda>bytes. bytes) (Some example_key) ''EBESExQVFhcYGRob:kB09Oy12mVgx35Jr+rc1Wg==:FZv0eiY=''
     = Inr [0x68, 0x65, 0x6c, 0x6c, 0x6f] \<and>
   decrypt (\<lambda>bytes. bytes) (Some example_key) ''EBESExQVFhcYGRob:kR09Oy12mVgx35Jr+rc1Wg==:FZv0eiY=''
     = Inl (Error ''Unsupported state or unable to authenticate data'')"
proof -
  have right: "map uint [0x90, 0x1d, 0x3d, 0x3b, 0x2d, 0x76, 0x99, 0x58, 0x31, 0xdf, 0x92, 0x6b, 0xfa, 0xb7, 0x35, 0x5a :: 8 word]
      = [0x90, 0x1d, 0x3d, 0x3b, 0x2d, 0x76, 0x99, 0x58, 0x31, 0xdf, 0x92, 0x6b, 0xfa, 0xb7, 0x35, 0x5a]"
    by code_simp
  have wrong: "map uint [0x91, 0x1d, 0x3d, 0x3b, 0x2d, 0x76, 0x99, 0x58, 0x31, 0xdf, 0x92, 0x6b, 0xfa, 0xb7, 0x35, 0x5a :: 8 word]
      \<noteq> [0x90, 0x1d, 0x3d, 0x3b, 0x2d, 0x76, 0x99, 0x58, 0x31, 0xdf, 0x92, 0x6b, 0xfa, 0xb7, 0x35, 0x5a]"
    by code_simp
  have iv: "map of_nat [16..<28] \<noteq> ([] :: Buffer)" "length (map of_nat [16..<28] :: Buffer) \<le> 128"
    by simp_all
  show ?thesis
    using decrypt_rejections [OF example_getKey, of "''EBESExQVFhcYGRob:kB09Oy12mVgx35Jr+rc1Wg==:FZv0eiY=''" "\<lambda>bytes. bytes"]
      decrypt_rejections [OF example_getKey, of "''EBESExQVFhcYGRob:kR09Oy12mVgx35Jr+rc1Wg==:FZv0eiY=''" "\<lambda>bytes. bytes"]
    unfolding example_fields example_changed_fields example_tag example_text
    using right wrong iv example_getKey by simp
qed

text \<open>
  The claim as stated fails on the IV and on the errors. The word hello encrypted under
  the same key with an IV of the 16 bytes 16 to 31 is decrypted, although its IV is not
  of 12 bytes. And the rejections are not one error: an input of one field fails with the
  error of the source, an input with a tag of three bytes with an error of the library
  that names the length, an input with an empty IV with another, and the input of the
  witness with a byte of its tag changed with a fourth.
\<close>

theorem decrypt_single_error_counterexample:
  "length (encryptedField ''EBESExQVFhcYGRobHB0eHw==:u+AitwJp4PDZ6RlCrD0Mgw==:4j9WDIg='' 0) = 16 \<and>
   decrypt (\<lambda>bytes. bytes) (Some example_key) ''EBESExQVFhcYGRobHB0eHw==:u+AitwJp4PDZ6RlCrD0Mgw==:4j9WDIg=''
     = Inr [0x68, 0x65, 0x6c, 0x6c, 0x6f] \<and>
   decrypt (\<lambda>bytes. bytes) (Some example_key) ''hello''
     = Inl (Error ''Invalid encrypted format (expected iv:tag:ciphertext)'') \<and>
   decrypt (\<lambda>bytes. bytes) (Some example_key) ''EBESExQVFhcYGRob:AAAA:FZv0eiY=''
     = Inl (TypeError ''Invalid authentication tag length: 3'') \<and>
   decrypt (\<lambda>bytes. bytes) (Some example_key) '':kB09Oy12mVgx35Jr+rc1Wg==:FZv0eiY=''
     = Inl (TypeError ''Invalid initialization vector'')"
proof -
  have long_iv: "length (encryptedField ''EBESExQVFhcYGRobHB0eHw==:u+AitwJp4PDZ6RlCrD0Mgw==:4j9WDIg='' 0) = 16"
    by code_simp
  have accepted: "decrypt (\<lambda>bytes. bytes) (Some example_key) ''EBESExQVFhcYGRobHB0eHw==:u+AitwJp4PDZ6RlCrD0Mgw==:4j9WDIg=''
     = Inr [0x68, 0x65, 0x6c, 0x6c, 0x6f]"
    by code_simp
  have one_field: "decrypt (\<lambda>bytes. bytes) (Some example_key) ''hello''
     = Inl (Error ''Invalid encrypted format (expected iv:tag:ciphertext)'')"
    by code_simp
  have short_tag: "decrypt (\<lambda>bytes. bytes) (Some example_key) ''EBESExQVFhcYGRob:AAAA:FZv0eiY=''
     = Inl (TypeError ''Invalid authentication tag length: 3'')"
    by code_simp
  have no_iv: "decrypt (\<lambda>bytes. bytes) (Some example_key) '':kB09Oy12mVgx35Jr+rc1Wg==:FZv0eiY=''
     = Inl (TypeError ''Invalid initialization vector'')"
    by code_simp
  from long_iv accepted one_field short_tag no_iv show ?thesis by blast
qed

end
